theory Spec2Isabelle
  imports Complex_Main "HOL-Library.Word" "HOL-Library.Sublist"
begin

text \<open>
  The API service of the CV optimizer (\<open>src/services/apiService.ts\<close>): the class
  \<open>APIService\<close> with its configuration, the two facade methods \<open>checkATSFormat\<close> and
  \<open>adaptCVToJob\<close>, the transport to the two providers, the two methods that normalize a
  reply, and the renderer of the default \<open>LaTeX\<close> document. The built-ins of the platform
  that the service relies on (\<open>String.prototype.match\<close>, \<open>replace\<close>, \<open>split\<close>,
  \<open>Array.prototype.slice\<close>, \<open>join\<close>, \<open>JSON.parse\<close>, the operators \<open>??\<close> and \<open>||\<close>) are
  defined first, each as far as the service uses it. A method that awaits is modelled as
  one step: the service reads its configuration only before it hands the request to the
  transport.
\<close>

section \<open>JavaScript strings\<close>

text \<open>
  A JavaScript string is a sequence of 16-bit code units. The service only ever compares
  code units with ASCII characters and copies them; it does no arithmetic on them.
  String literals of the source are written \<open>js ''...''\<close>; the backslash is
  \<open>CHR 0x5C\<close> and the double quote \<open>CHR 0x22\<close>.
\<close>

type_synonym unit16 = "16 word"
type_synonym jsstring = "unit16 list"

abbreviation U :: "char \<Rightarrow> unit16" where
  "U c \<equiv> of_char c"

definition js :: "string \<Rightarrow> jsstring" where
  "js = map of_char"

section \<open>Numbers\<close>

text \<open>
  A JavaScript number is an IEEE 754 double. The doubles a decimal literal can denote are
  the rationals that a double represents exactly (\<open>Num\<close>, among them the zero), the
  negative zero and the two infinities; no literal denotes a \<open>NaN\<close>.
\<close>

datatype number = Num rat | MinusZero | Infinity | MinusInfinity

text \<open>The number of binary digits of a natural number.\<close>

function bit_length :: "nat \<Rightarrow> nat" where
  "bit_length n = (if n = 0 then 0 else Suc (bit_length (n div 2)))"
  by auto
termination
  by (relation "measure id") auto

declare bit_length.simps [simp del]

definition pow2 :: "int \<Rightarrow> rat" where
  "pow2 e = (if 0 \<le> e then 2 ^ nat e else 1 / 2 ^ nat (- e))"

text \<open>\<open>pow2_le k p q\<close>: the power \<open>2\<^sup>k\<close> is at most the fraction \<open>p / q\<close>.\<close>

definition pow2_le :: "int \<Rightarrow> nat \<Rightarrow> nat \<Rightarrow> bool" where
  "pow2_le k p q = (if 0 \<le> k then q * 2 ^ nat k \<le> p else q \<le> p * 2 ^ nat (- k))"

text \<open>
  The binary exponent of a positive fraction \<open>p / q\<close>: the \<open>e\<close> with
  \<open>2\<^sup>e \<le> p / q < 2\<^sup>e\<^sup>+\<^sup>1\<close>. The difference of the bit lengths is this exponent or one
  more.
\<close>

definition binary_exponent :: "nat \<Rightarrow> nat \<Rightarrow> int" where
  "binary_exponent p q =
     (let k = int (bit_length p) - int (bit_length q)
      in if pow2_le k p q then k else k - 1)"

text \<open>The integer nearest to \<open>a / b\<close>, the even one of the two when \<open>a / b\<close> is half way.\<close>

definition round_half_even :: "nat \<Rightarrow> nat \<Rightarrow> nat" where
  "round_half_even a b =
     (let n = a div b; r = a mod b
      in if 2 * r < b then n
         else if b < 2 * r then n + 1
         else if even n then n else n + 1)"

text \<open>
  The double nearest to the fraction \<open>p / q\<close> with the sign \<open>neg\<close>, ties to even. A double
  has 53 significant binary digits and a binary exponent of at least -1022, so the doubles
  near \<open>p / q\<close> are the multiples of \<open>2\<^sup>g\<close>, where \<open>g\<close> is 52 less than the binary
  exponent of \<open>p / q\<close> and at least -1074. A result of magnitude \<open>2\<^sup>1\<^sup>0\<^sup>2\<^sup>4\<close> or more is an
  infinity, and a result of magnitude zero keeps the sign.
\<close>

definition to_double :: "bool \<Rightarrow> nat \<Rightarrow> nat \<Rightarrow> number" where
  "to_double neg p q =
     (if p = 0 then (if neg then MinusZero else Num 0)
      else
        let g = max (binary_exponent p q) (- 1022) - 52;
            n = (if 0 \<le> g then round_half_even p (q * 2 ^ nat g)
                 else round_half_even (p * 2 ^ nat (- g)) q);
            v = of_nat n * pow2 g
        in if n = 0 then (if neg then MinusZero else Num 0)
           else if 2 ^ 1024 \<le> v then (if neg then MinusInfinity else Infinity)
           else Num (if neg then - v else v))"

text \<open>The double of the decimal \<open>m \<times> 10\<^sup>e\<close> with the sign \<open>neg\<close>.\<close>

definition decimal_to_double :: "bool \<Rightarrow> nat \<Rightarrow> int \<Rightarrow> number" where
  "decimal_to_double neg m e =
     (if 0 \<le> e then to_double neg (m * 10 ^ nat e) 1
      else to_double neg m (10 ^ nat (- e)))"

section \<open>JSON values\<close>

text \<open>
  The values \<open>JSON.parse\<close> can produce. An object keeps its members in the order of the
  text; a later duplicate of a key overrides an earlier one. A value of type \<open>jsvalue\<close>
  is a runtime value of type \<open>any\<close>: \<open>None\<close> is \<open>undefined\<close>.
\<close>

datatype json =
    JNull
  | JBool bool
  | JNum number
  | JStr jsstring
  | JArr "json list"
  | JObj "(jsstring \<times> json) list"

type_synonym jsvalue = "json option"

abbreviation str :: "jsstring \<Rightarrow> jsvalue" where
  "str s \<equiv> Some (JStr s)"

section \<open>The regular expression \<open>/\{[\s\S]*\}/\<close>\<close>

text \<open>
  \<open>[\s\S]*\}\<close> anchored at the current position. The star is greedy: the engine first lets
  it take one more code unit and only when the rest cannot be matched that way does it
  stop the star here and ask for the closing brace.
\<close>

fun star_rbrace :: "jsstring \<Rightarrow> jsstring option" where
  "star_rbrace [] = None"
| "star_rbrace (c # cs) =
     (case star_rbrace cs of
        Some m \<Rightarrow> Some (c # m)
      | None \<Rightarrow> (if c = U CHR ''}'' then Some [c] else None))"

text \<open>
  \<open>response.match(/\{[\s\S]*\}/)\<close>: the start positions are tried from left to right and the
  first position with a match wins; \<open>None\<close> is the \<open>null\<close> of no match, \<open>Some m\<close> is
  \<open>jsonMatch[0]\<close>.
\<close>

fun jsonMatch :: "jsstring \<Rightarrow> jsstring option" where
  "jsonMatch [] = None"
| "jsonMatch (c # cs) =
     (if c = U CHR ''{'' then
        (case star_rbrace cs of
           Some m \<Rightarrow> Some (c # m)
         | None \<Rightarrow> jsonMatch cs)
      else jsonMatch cs)"





section \<open>\<open>JSON.parse\<close>\<close>

subsection \<open>Tokens\<close>

datatype token =
    TLBrace | TRBrace | TLBracket | TRBracket | TColon | TComma
  | TAtom json

definition is_ws :: "unit16 \<Rightarrow> bool" where
  "is_ws c \<longleftrightarrow> c = 0x20 \<or> c = 0x09 \<or> c = 0x0A \<or> c = 0x0D"

definition is_digit :: "unit16 \<Rightarrow> bool" where
  "is_digit c \<longleftrightarrow> 0x30 \<le> c \<and> c \<le> 0x39"

definition digit_val :: "unit16 \<Rightarrow> nat" where
  "digit_val c = unat c - 48"

definition hex_val :: "unit16 \<Rightarrow> nat option" where
  "hex_val c =
     (if 0x30 \<le> c \<and> c \<le> 0x39 then Some (unat c - 48)
      else if 0x41 \<le> c \<and> c \<le> 0x46 then Some (unat c - 55)
      else if 0x61 \<le> c \<and> c \<le> 0x66 then Some (unat c - 87)
      else None)"

definition hex4 :: "unit16 \<Rightarrow> unit16 \<Rightarrow> unit16 \<Rightarrow> unit16 \<Rightarrow> unit16 option" where
  "hex4 a b c d =
     (case (hex_val a, hex_val b, hex_val c, hex_val d) of
        (Some x, Some y, Some z, Some w) \<Rightarrow> Some (of_nat (((x * 16 + y) * 16 + z) * 16 + w))
      | _ \<Rightarrow> None)"

text \<open>The single-character escapes of a JSON string: \<open>\" \\ \/ \b \f \n \r \t\<close>.\<close>

definition simple_escape :: "unit16 \<Rightarrow> unit16 option" where
  "simple_escape e =
     (if e = U CHR 0x22 then Some (U CHR 0x22)
      else if e = U CHR 0x5C then Some (U CHR 0x5C)
      else if e = U CHR ''/'' then Some (U CHR ''/'')
      else if e = U CHR ''b'' then Some 0x08
      else if e = U CHR ''f'' then Some 0x0C
      else if e = U CHR ''n'' then Some 0x0A
      else if e = U CHR ''r'' then Some 0x0D
      else if e = U CHR ''t'' then Some 0x09
      else None)"

text \<open>
  The body of a string literal, after the opening quote: the decoded string and the rest
  of the text after the closing quote. An unterminated literal, an unknown escape and a
  raw control character are syntax errors.
\<close>

fun lex_string :: "jsstring \<Rightarrow> jsstring \<Rightarrow> (jsstring \<times> jsstring) option" where
  "lex_string acc [] = None"
| "lex_string acc (c # cs) =
     (if c = U CHR 0x22 then Some (rev acc, cs)
      else if c = U CHR 0x5C then
        (case cs of
           [] \<Rightarrow> None
         | e # es \<Rightarrow>
             if e = U CHR ''u'' then
               (case es of
                  h1 # h2 # h3 # h4 # r \<Rightarrow>
                    (case hex4 h1 h2 h3 h4 of
                       Some u \<Rightarrow> lex_string (u # acc) r
                     | None \<Rightarrow> None)
                | _ \<Rightarrow> None)
             else
               (case simple_escape e of
                  Some u \<Rightarrow> lex_string (u # acc) es
                | None \<Rightarrow> None))
      else if c < 0x20 then None
      else lex_string (c # acc) cs)"

text \<open>
  A number literal: \<open>-? (0 | [1-9][0-9]*) (. [0-9]+)? ([eE] [+-]? [0-9]+)?\<close>. Its value
  is the double nearest to the decimal it writes: the digits of the integer part and of the
  fraction as one natural number, scaled by ten to the exponent less the number of digits of
  the fraction.
\<close>

definition digits_val :: "jsstring \<Rightarrow> nat" where
  "digits_val ds = foldl (\<lambda>n d. 10 * n + digit_val d) 0 ds"

definition lex_sign :: "jsstring \<Rightarrow> bool \<times> jsstring" where
  "lex_sign s = (case s of [] \<Rightarrow> (False, s) | c # r \<Rightarrow> if c = U CHR ''-'' then (True, r) else (False, s))"

definition lex_int :: "jsstring \<Rightarrow> (jsstring \<times> jsstring) option" where
  "lex_int s =
     (case s of
        [] \<Rightarrow> None
      | c # r \<Rightarrow>
          if c = U CHR ''0'' then Some ([c], r)
          else if is_digit c then Some (takeWhile is_digit s, dropWhile is_digit s)
          else None)"

definition lex_frac :: "jsstring \<Rightarrow> (jsstring \<times> jsstring) option" where
  "lex_frac s =
     (case s of
        [] \<Rightarrow> Some ([], s)
      | c # r \<Rightarrow>
          if c = U CHR ''.'' then
            (let ds = takeWhile is_digit r in
             if ds = [] then None
             else Some (ds, dropWhile is_digit r))
          else Some ([], s))"

definition lex_exp_digits :: "bool \<Rightarrow> jsstring \<Rightarrow> (int \<times> jsstring) option" where
  "lex_exp_digits neg s =
     (let ds = takeWhile is_digit s in
      if ds = [] then None
      else Some ((if neg then - int (digits_val ds) else int (digits_val ds)),
                 dropWhile is_digit s))"

definition lex_exp :: "jsstring \<Rightarrow> (int \<times> jsstring) option" where
  "lex_exp s =
     (case s of
        [] \<Rightarrow> Some (0, s)
      | c # r \<Rightarrow>
          if c = U CHR ''e'' \<or> c = U CHR ''E'' then
            (case r of
               [] \<Rightarrow> None
             | g # t \<Rightarrow>
                 if g = U CHR ''+'' then lex_exp_digits False t
                 else if g = U CHR ''-'' then lex_exp_digits True t
                 else lex_exp_digits False r)
          else Some (0, s))"

definition lex_number :: "jsstring \<Rightarrow> (number \<times> jsstring) option" where
  "lex_number s =
     (case lex_sign s of
        (neg, s1) \<Rightarrow>
          (case lex_int s1 of
             None \<Rightarrow> None
           | Some (ip, s2) \<Rightarrow>
               (case lex_frac s2 of
                  None \<Rightarrow> None
                | Some (fp, s3) \<Rightarrow>
                    (case lex_exp s3 of
                       None \<Rightarrow> None
                     | Some (e, s4) \<Rightarrow>
                         Some (decimal_to_double neg (digits_val (ip @ fp))
                                 (e - int (length fp)), s4)))))"

lemma lex_string_length:
  "lex_string acc s = Some (v, r) \<Longrightarrow> length r < length s"
proof (induction acc s rule: lex_string.induct)
  case (1 acc)
  then show ?case by simp
next
  case (2 acc c cs)
  then show ?case
    by (auto split: if_splits list.splits option.splits) fastforce+
qed

lemma length_dropWhile_le_input: "length (dropWhile P xs) \<le> length xs"
  by (induction xs) auto

lemma lex_int_length: "lex_int s = Some (n, r) \<Longrightarrow> length r < length s"
  using length_dropWhile_le_input [of is_digit "tl s"]
  by (cases s) (auto simp: lex_int_def split: if_splits)

lemma lex_sign_length: "lex_sign s = (b, r) \<Longrightarrow> length r \<le> length s"
  by (cases s) (auto simp: lex_sign_def split: if_splits)

lemma lex_frac_length: "lex_frac s = Some (x, r) \<Longrightarrow> length r \<le> length s"
  using length_dropWhile_le_input [of is_digit "tl s"]
  by (cases s) (auto simp: lex_frac_def Let_def split: if_splits)

lemma lex_exp_digits_length: "lex_exp_digits b s = Some (e, r) \<Longrightarrow> length r \<le> length s"
  using length_dropWhile_le_input [of is_digit s]
  by (auto simp: lex_exp_digits_def Let_def split: if_splits)

lemma lex_exp_length: "lex_exp s = Some (e, r) \<Longrightarrow> length r \<le> length s"
  by (cases s) (auto simp: lex_exp_def split: if_splits list.splits
      dest!: lex_exp_digits_length)

lemma lex_number_length:
  assumes "lex_number s = Some (x, r)"
  shows "length r < length s"
proof -
  obtain neg s1 where s1: "lex_sign s = (neg, s1)"
    by (cases "lex_sign s")
  from assms s1 obtain ip s2 where s2: "lex_int s1 = Some (ip, s2)"
    by (auto simp: lex_number_def split: option.splits)
  from assms s1 s2 obtain fp s3 where s3: "lex_frac s2 = Some (fp, s3)"
    by (auto simp: lex_number_def split: option.splits)
  from assms s1 s2 s3 obtain e where s4: "lex_exp s3 = Some (e, r)"
    by (auto simp: lex_number_def split: option.splits)
  from lex_sign_length [OF s1] lex_int_length [OF s2] lex_frac_length [OF s3]
    lex_exp_length [OF s4]
  show ?thesis by linarith
qed


subsection \<open>The lexer\<close>

function lex :: "jsstring \<Rightarrow> token list option" where
  "lex [] = Some []"
| "lex (c # cs) =
     (if is_ws c then lex cs
      else if c = U CHR ''{'' then map_option (Cons TLBrace) (lex cs)
      else if c = U CHR ''}'' then map_option (Cons TRBrace) (lex cs)
      else if c = U CHR ''['' then map_option (Cons TLBracket) (lex cs)
      else if c = U CHR '']'' then map_option (Cons TRBracket) (lex cs)
      else if c = U CHR '':'' then map_option (Cons TColon) (lex cs)
      else if c = U CHR '','' then map_option (Cons TComma) (lex cs)
      else if c = U CHR 0x22 then
        (case lex_string [] cs of
           None \<Rightarrow> None
         | Some (v, r) \<Rightarrow> map_option (Cons (TAtom (JStr v))) (lex r))
      else if c = U CHR ''-'' \<or> is_digit c then
        (case lex_number (c # cs) of
           None \<Rightarrow> None
         | Some (x, r) \<Rightarrow> map_option (Cons (TAtom (JNum x))) (lex r))
      else if prefix (js ''true'') (c # cs) then
        map_option (Cons (TAtom (JBool True))) (lex (drop 3 cs))
      else if prefix (js ''false'') (c # cs) then
        map_option (Cons (TAtom (JBool False))) (lex (drop 4 cs))
      else if prefix (js ''null'') (c # cs) then
        map_option (Cons (TAtom JNull)) (lex (drop 3 cs))
      else None)"
  by pat_completeness auto
termination
proof (relation "measure length")
  fix c :: unit16 and cs x v r
  assume "lex_string [] cs = Some x" "(v, r) = x"
  then show "(r, c # cs) \<in> measure length"
    using lex_string_length [of "[]" cs v r] by simp
next
  fix c :: unit16 and cs x v r
  assume "lex_number (c # cs) = Some x" "(v, r) = x"
  then show "(r, c # cs) \<in> measure length"
    using lex_number_length [of "c # cs" v r] by simp
qed auto

subsection \<open>The parser\<close>

text \<open>
  A pushdown automaton over the tokens. A frame is a container that is still open: an
  array with the elements read so far, or an object with the members read so far and the
  key whose value is being read.
\<close>

datatype frame =
    FArr "json list"
  | FObj "(jsstring \<times> json) list" jsstring

datatype mode =
    NeedValue
  | ArrStart
  | ObjStart "(jsstring \<times> json) list"
  | NeedKey "(jsstring \<times> json) list"
  | NeedColon "(jsstring \<times> json) list" jsstring
  | AfterValue
  | Done json

text \<open>A complete value goes into the innermost open container, or is the result.\<close>

fun push_value :: "json \<Rightarrow> frame list \<Rightarrow> (frame list \<times> mode)" where
  "push_value v [] = ([], Done v)"
| "push_value v (FArr es # st) = (FArr (es @ [v]) # st, AfterValue)"
| "push_value v (FObj kvs k # st) = (FObj (kvs @ [(k, v)]) k # st, AfterValue)"

fun start_value :: "token \<Rightarrow> frame list \<Rightarrow> (frame list \<times> mode) option" where
  "start_value (TAtom v) st = Some (push_value v st)"
| "start_value TLBracket st = Some (st, ArrStart)"
| "start_value TLBrace st = Some (st, ObjStart [])"
| "start_value _ st = None"

fun pstep :: "frame list \<times> mode \<Rightarrow> token \<Rightarrow> (frame list \<times> mode) option" where
  "pstep (st, NeedValue) t = start_value t (st)"
| "pstep (st, ArrStart) t =
     (if t = TRBracket then Some (push_value (JArr []) st)
      else start_value t (FArr [] # st))"
| "pstep (st, ObjStart kvs) t =
     (case t of
        TRBrace \<Rightarrow> Some (push_value (JObj []) st)
      | TAtom (JStr k) \<Rightarrow> Some (st, NeedColon kvs k)
      | _ \<Rightarrow> None)"
| "pstep (st, NeedKey kvs) t =
     (case t of
        TAtom (JStr k) \<Rightarrow> Some (st, NeedColon kvs k)
      | _ \<Rightarrow> None)"
| "pstep (st, NeedColon kvs k) t =
     (if t = TColon then Some (FObj kvs k # st, NeedValue) else None)"
| "pstep (st, AfterValue) t =
     (case st of
        [] \<Rightarrow> None
      | FArr es # st' \<Rightarrow>
          (if t = TComma then Some (FArr es # st', NeedValue)
           else if t = TRBracket then Some (push_value (JArr es) st')
           else None)
      | FObj kvs k # st' \<Rightarrow>
          (if t = TComma then Some (st', NeedKey kvs)
           else if t = TRBrace then Some (push_value (JObj kvs) st')
           else None))"
| "pstep (st, Done v) t = None"

fun prun :: "frame list \<times> mode \<Rightarrow> token list \<Rightarrow> json option" where
  "prun (st, m) [] = (case m of Done v \<Rightarrow> Some v | _ \<Rightarrow> None)"
| "prun (st, m) (t # ts) =
     (case pstep (st, m) t of
        None \<Rightarrow> None
      | Some c \<Rightarrow> prun c ts)"

text \<open>
  The states the parser can be in while it reads a text whose outermost value is an
  object: the outermost open container is an object, or the object is about to receive
  its first key, its next key or a colon, or it is complete.
\<close>

fun obj_root :: "frame list \<times> mode \<Rightarrow> bool" where
  "obj_root ([], ObjStart kvs) = True"
| "obj_root ([], NeedKey kvs) = True"
| "obj_root ([], NeedColon kvs k) = True"
| "obj_root ([], Done (JObj kvs)) = True"
| "obj_root ([], m) = False"
| "obj_root (f # st, m) =
     ((case last (f # st) of FObj kvs k \<Rightarrow> True | FArr es \<Rightarrow> False)
      \<and> (case m of Done v \<Rightarrow> False | _ \<Rightarrow> True))"

text \<open>\<open>JSON.parse(text)\<close>; \<open>None\<close> is the \<open>SyntaxError\<close> it throws.\<close>

definition JSON_parse :: "jsstring \<Rightarrow> json option" where
  "JSON_parse s = (case lex s of None \<Rightarrow> None | Some ts \<Rightarrow> prun ([], NeedValue) ts)"


section \<open>Values of type \<open>any\<close>\<close>

text \<open>
  What can be thrown: an \<open>Error\<close> that the service makes, with its message, and the
  \<open>SyntaxError\<close> and \<open>TypeError\<close> of the engine, whose messages the engine chooses.
\<close>

datatype error = Error jsstring | SyntaxError | TypeError

text \<open>
  An array index as a property name: \<open>0\<close>, or digits that do not start with \<open>0\<close>.
\<close>

definition index_of_key :: "jsstring \<Rightarrow> nat option" where
  "index_of_key k =
     (if k \<noteq> [] \<and> list_all is_digit k \<and> (k = js ''0'' \<or> hd k \<noteq> U CHR ''0'')
      then Some (digits_val k) else None)"

text \<open>
  \<open>v[k]\<close> for a value that is neither \<open>undefined\<close> nor \<open>null\<close>: an own member of an
  object (the last one of that name), an element or the length of an array or a string.
  The names the service reads (\<open>isATSFormat\<close>, \<open>score\<close>, \<open>issues\<close>, \<open>suggestions\<close>,
  \<open>adaptedCV\<close>, \<open>latexCode\<close>, \<open>changes\<close>, \<open>highlightedSkills\<close>, \<open>choices\<close>, \<open>message\<close>,
  \<open>content\<close>, \<open>text\<close>, \<open>0\<close>) are not names of the built-in prototypes, so a read that
  finds no own property is \<open>undefined\<close>.
\<close>

fun get_prop :: "json \<Rightarrow> jsstring \<Rightarrow> jsvalue" where
  "get_prop (JObj kvs) k = map_of (rev kvs) k"
| "get_prop (JArr xs) k =
     (case index_of_key k of
        Some i \<Rightarrow> (if i < length xs then Some (xs ! i) else None)
      | None \<Rightarrow> (if k = js ''length'' then Some (JNum (Num (of_nat (length xs)))) else None))"
| "get_prop (JStr s) k =
     (case index_of_key k of
        Some i \<Rightarrow> (if i < length s then Some (JStr [s ! i]) else None)
      | None \<Rightarrow> (if k = js ''length'' then Some (JNum (Num (of_nat (length s)))) else None))"
| "get_prop _ k = None"

text \<open>\<open>a ?? d\<close>: the default replaces \<open>undefined\<close> and \<open>null\<close> only.\<close>

fun nullish_coalesce :: "jsvalue \<Rightarrow> json \<Rightarrow> json" where
  "nullish_coalesce None d = d"
| "nullish_coalesce (Some JNull) d = d"
| "nullish_coalesce (Some v) d = v"

text \<open>Truthiness. A number is falsy when it is a zero (\<open>JSON.parse\<close> yields no \<open>NaN\<close>).\<close>

fun truthy :: "jsvalue \<Rightarrow> bool" where
  "truthy None = False"
| "truthy (Some JNull) = False"
| "truthy (Some (JBool b)) = b"
| "truthy (Some (JNum x)) = (x \<noteq> Num 0 \<and> x \<noteq> MinusZero)"
| "truthy (Some (JStr s)) = (s \<noteq> [])"
| "truthy (Some (JArr xs)) = True"
| "truthy (Some (JObj kvs)) = True"

text \<open>\<open>a || d\<close>: the default replaces every falsy value.\<close>

definition logical_or :: "jsvalue \<Rightarrow> json \<Rightarrow> json" where
  "logical_or a d = (case a of None \<Rightarrow> d | Some v \<Rightarrow> if truthy a then v else d)"

section \<open>The document renderer\<close>

abbreviation BS :: char where
  "BS \<equiv> CHR 0x5C"

text \<open>
  \<open>s.replace(/c/g, r)\<close> for a pattern that is one literal character and a replacement
  text without a \<open>$\<close> pattern: every occurrence of \<open>c\<close> in \<open>s\<close> becomes \<open>r\<close>. (The one
  \<open>$\<close> among the replacements of the renderer is the last character of its text, where
  it stands for itself.)
\<close>

fun replace_all :: "unit16 \<Rightarrow> jsstring \<Rightarrow> jsstring \<Rightarrow> jsstring" where
  "replace_all c r [] = []"
| "replace_all c r (x # xs) =
     (if x = c then r @ replace_all c r xs else x # replace_all c r xs)"

text \<open>The chain of ten replacements that computes \<open>escapedText\<close>, in the order of the source.\<close>

definition escapedText :: "jsstring \<Rightarrow> jsstring" where
  "escapedText cvText =
     replace_all (U CHR ''~'') (js (BS # ''textasciitilde{}''))
    (replace_all (U CHR ''_'') (js (BS # ''_''))
    (replace_all (U CHR ''^'') (js (BS # ''textasciicircum{}''))
    (replace_all (U CHR ''&'') (js (BS # ''&''))
    (replace_all (U CHR ''%'') (js (BS # ''%''))
    (replace_all (U CHR ''$'') (js (BS # ''$''))
    (replace_all (U CHR ''#'') (js (BS # ''#''))
    (replace_all (U CHR ''}'') (js (BS # ''}''))
    (replace_all (U CHR ''{'') (js (BS # ''{''))
    (replace_all (U BS) (js (BS # ''textbackslash{}'')) cvText)))))))))"

text \<open>
  \<open>s.split(sep)\<close> for a string separator: the pieces between the occurrences of \<open>sep\<close>,
  found from left to right without overlap; an empty separator cuts between all code
  units.
\<close>

fun split_from :: "jsstring \<Rightarrow> jsstring \<Rightarrow> jsstring \<Rightarrow> jsstring list" where
  "split_from sep cur [] = [rev cur]"
| "split_from sep cur (c # cs) =
     (if sep \<noteq> [] \<and> prefix sep (c # cs)
      then rev cur # split_from sep [] (drop (length sep - 1) cs)
      else split_from sep (c # cur) cs)"

definition split :: "jsstring \<Rightarrow> jsstring \<Rightarrow> jsstring list" where
  "split s sep = (if sep = [] then map (\<lambda>c. [c]) s else split_from sep [] s)"

text \<open>\<open>xs.slice(a, b)\<close> for indices that are not negative.\<close>

definition slice :: "nat \<Rightarrow> nat \<Rightarrow> 'a list \<Rightarrow> 'a list" where
  "slice a b xs = take (b - a) (drop a xs)"

fun join :: "jsstring \<Rightarrow> jsstring list \<Rightarrow> jsstring" where
  "join sep [] = []"
| "join sep [x] = x"
| "join sep (x # y # ys) = x @ sep @ join sep (y # ys)"

text \<open>
  The fixed text of the template literal: before the summary, between the summary and the
  full text, and after the full text.
\<close>

definition latex_head :: jsstring where
  \<open>latex_head =
     js (concat
       [BS # ''documentclass[11pt,a4paper,sans]{moderncv}\<newline>'',
        BS # ''moderncvstyle{classic}\<newline>'',
        BS # ''moderncvcolor{blue}\<newline>'',
        ''\<newline>'',
        BS # ''usepackage[utf8]{inputenc}\<newline>'',
        BS # ''usepackage[scale=0.75]{geometry}\<newline>'',
        BS # ''usepackage[T1]{fontenc}\<newline>'',
        ''\<newline>'',
        ''% Personal Data\<newline>'',
        BS # ''name{Your}{Name}\<newline>'',
        BS # ''address{Your Address}\<newline>'',
        BS # ''phone[mobile]{+1~(234)~567~890}\<newline>'',
        BS # ''email{your.email@example.com}\<newline>'',
        ''\<newline>'',
        BS # ''begin{document}\<newline>'',
        BS # ''makecvtitle\<newline>'',
        ''\<newline>'',
        BS # ''section{Professional Summary}\<newline>''])\<close>

definition latex_mid :: jsstring where
  \<open>latex_mid =
     js (concat
       [''\<newline>'',
        ''\<newline>'',
        BS # ''section{Experience}\<newline>''])\<close>

definition latex_tail :: jsstring where
  \<open>latex_tail =
     js (concat
       [''\<newline>'',
        ''\<newline>'',
        BS # ''section{Education}\<newline>'',
        ''% Add your education here\<newline>'',
        ''\<newline>'',
        BS # ''section{Skills}\<newline>'',
        ''% Add your skills here\<newline>'',
        ''\<newline>'',
        BS # ''end{document}''])\<close>

text \<open>
  The expression of the summary section. In the source both string literals stand inside
  the template literal's \<open>${...}\<close>, where \<open>'\\n'\<close> is the two characters backslash and
  \<open>n\<close>, and \<open>'\\n\\par'\<close> is backslash, \<open>n\<close>, backslash, \<open>par\<close>.
\<close>

definition summary :: "jsstring \<Rightarrow> jsstring" where
  "summary e = join (js (BS # ''n'' @ BS # ''par'')) (slice 0 3 (split e (js (BS # ''n''))))"

definition generateDefaultLaTeX :: "jsstring \<Rightarrow> jsstring" where
  "generateDefaultLaTeX cvText =
     (let e = escapedText cvText
      in latex_head @ summary e @ latex_mid @ e @ latex_tail)"


section \<open>The service and its environment\<close>

datatype APIProvider = openai | claude

record APIProviderConfig =
  provider :: APIProvider
  apiKey :: jsstring
  model :: "jsstring option"

text \<open>
  The interfaces declare the types of the fields; at run time a field holds whatever the
  decoded payload holds, so the fields are values of type \<open>any\<close> here.
\<close>

record ATSFormatCheck =
  isATSFormat :: json
  score :: json
  issues :: json
  suggestions :: json

record CVAdaptationResult =
  adaptedCV :: json
  latexCode :: json
  changes :: json
  highlightedSkills :: json

record http_request =
  url :: jsstring
  body :: json
  headers :: "(jsstring \<times> jsstring) list"

text \<open>
  What is observable of a run: the private field \<open>config\<close> of the service object, the
  lines written with \<open>console.error\<close> (label and error), and the requests handed to
  \<open>axios.post\<close>, in order.
\<close>

record world =
  config :: "APIProviderConfig option"
  console :: "(jsstring \<times> error) list"
  sent :: "http_request list"

definition init :: world where
  "init = \<lparr>config = None, console = [], sent = []\<rparr>"

text \<open>
  The network and the engine are parameters. \<open>post n req\<close> is the outcome of the request
  \<open>req\<close> when \<open>n\<close> requests were sent before it: a response with its decoded \<open>data\<close>, or a
  failure with the text that \<open>error.response?.data?.error?.message || error.message\<close>
  renders to. \<open>typeErrorMessage\<close> is the message of the \<open>TypeError\<close> that the engine throws
  when a property of \<open>undefined\<close> or \<open>null\<close> is read.
\<close>

datatype outcome = Response json | Failure jsstring

record env =
  post :: "nat \<Rightarrow> http_request \<Rightarrow> outcome"
  typeErrorMessage :: jsstring

section \<open>The response normalizer\<close>

text \<open>
  The private methods run on the service object and in sight of the globals: each takes
  the world it is called in and returns, with its result, the world it leaves.

  The call \<open>this.generateDefaultLaTeX(v)\<close> with a value of type \<open>any\<close>: a value that is
  not a string has no callable \<open>replace\<close>, and the call throws a \<open>TypeError\<close>.
\<close>

fun generateDefaultLaTeX_call :: "world \<Rightarrow> json \<Rightarrow> (error + jsstring) \<times> world" where
  "generateDefaultLaTeX_call w (JStr s) = (Inr (generateDefaultLaTeX s), w)"
| "generateDefaultLaTeX_call w _ = (Inl TypeError, w)"

definition ats_fallback :: ATSFormatCheck where
  "ats_fallback =
     \<lparr>isATSFormat = JBool False,
      score = JNum (Num 0),
      issues = JArr [JStr (js ''Failed to parse API response'')],
      suggestions = JArr [JStr (js ''Please check the API response format'')]\<rparr>"

definition adaptation_fallback :: CVAdaptationResult where
  "adaptation_fallback =
     \<lparr>adaptedCV = JStr [],
      latexCode = JStr (generateDefaultLaTeX []),
      changes = JArr [JStr (js ''Failed to parse API response'')],
      highlightedSkills = JArr []\<rparr>"

text \<open>
  The body of the \<open>try\<close> block of \<open>parseATSResponse\<close>; \<open>Inl\<close> is what it throws. A value
  that is not a string has no callable \<open>match\<close>, and reading a property of \<open>null\<close> throws.
\<close>

definition parseATSResponse_try ::
  "world \<Rightarrow> jsvalue \<Rightarrow> (error + ATSFormatCheck) \<times> world" where
  "parseATSResponse_try w response =
     (case response of
        Some (JStr s) \<Rightarrow>
          (case jsonMatch s of
             Some m \<Rightarrow>
               (case JSON_parse m of
                  None \<Rightarrow> (Inl SyntaxError, w)
                | Some parsed \<Rightarrow>
                    if parsed = JNull then (Inl TypeError, w)
                    else (Inr
                      \<lparr>isATSFormat = nullish_coalesce (get_prop parsed (js ''isATSFormat'')) (JBool False),
                       score = nullish_coalesce (get_prop parsed (js ''score'')) (JNum (Num 0)),
                       issues = nullish_coalesce (get_prop parsed (js ''issues'')) (JArr []),
                       suggestions = nullish_coalesce (get_prop parsed (js ''suggestions'')) (JArr [])\<rparr>,
                      w))
           | None \<Rightarrow> (Inl (Error (js ''No JSON found in response'')), w))
      | _ \<Rightarrow> (Inl TypeError, w))"

text \<open>The method: what the \<open>try\<close> block throws, the \<open>catch\<close> block logs and answers.\<close>

definition parseATSResponse :: "world \<Rightarrow> jsvalue \<Rightarrow> ATSFormatCheck \<times> world" where
  "parseATSResponse w response =
     (case parseATSResponse_try w response of
        (Inr r, w') \<Rightarrow> (r, w')
      | (Inl e, w') \<Rightarrow>
          (ats_fallback, w'\<lparr>console := console w' @ [(js ''Error parsing ATS response:'', e)]\<rparr>))"

text \<open>
  The body of the \<open>try\<close> block of \<open>parseAdaptationResponse\<close>. The fields are evaluated in the
  order of the literal; the renderer is called only when \<open>parsed.latexCode\<close> is falsy.
\<close>

definition parseAdaptationResponse_try ::
  "world \<Rightarrow> jsvalue \<Rightarrow> (error + CVAdaptationResult) \<times> world" where
  "parseAdaptationResponse_try w response =
     (case response of
        Some (JStr s) \<Rightarrow>
          (case jsonMatch s of
             Some m \<Rightarrow>
               (case JSON_parse m of
                  None \<Rightarrow> (Inl SyntaxError, w)
                | Some parsed \<Rightarrow>
                    if parsed = JNull then (Inl TypeError, w)
                    else
                      (case (if truthy (get_prop parsed (js ''latexCode''))
                             then (Inr (logical_or (get_prop parsed (js ''latexCode'')) JNull), w)
                             else (case generateDefaultLaTeX_call w
                                          (logical_or (get_prop parsed (js ''adaptedCV'')) (JStr [])) of
                                     (r, w') \<Rightarrow> (map_sum id JStr r, w'))) of
                         (Inl e, w') \<Rightarrow> (Inl e, w')
                       | (Inr code, w') \<Rightarrow>
                           (Inr
                             \<lparr>adaptedCV = logical_or (get_prop parsed (js ''adaptedCV'')) (JStr []),
                              latexCode = code,
                              changes = logical_or (get_prop parsed (js ''changes'')) (JArr []),
                              highlightedSkills =
                                logical_or (get_prop parsed (js ''highlightedSkills'')) (JArr [])\<rparr>,
                            w')))
           | None \<Rightarrow> (Inl (Error (js ''No JSON found in response'')), w))
      | _ \<Rightarrow> (Inl TypeError, w))"

definition parseAdaptationResponse :: "world \<Rightarrow> jsvalue \<Rightarrow> CVAdaptationResult \<times> world" where
  "parseAdaptationResponse w response =
     (case parseAdaptationResponse_try w response of
        (Inr r, w') \<Rightarrow> (r, w')
      | (Inl e, w') \<Rightarrow>
          (adaptation_fallback,
           w'\<lparr>console := console w' @ [(js ''Error parsing adaptation response:'', e)]\<rparr>))"

section \<open>The provider transport\<close>

text \<open>
  A chain of property reads \<open>v.k1.k2...\<close>: reading a property of \<open>undefined\<close> or \<open>null\<close>
  throws a \<open>TypeError\<close>.
\<close>

fun read_path :: "jsvalue \<Rightarrow> jsstring list \<Rightarrow> error + jsvalue" where
  "read_path v [] = Inr v"
| "read_path None (k # ks) = Inl TypeError"
| "read_path (Some JNull) (k # ks) = Inl TypeError"
| "read_path (Some v) (k # ks) = read_path (get_prop v k) ks"

text \<open>\<open>this.config.model || d\<close>: the default stands for an absent and for an empty model.\<close>

definition model_or :: "APIProviderConfig \<Rightarrow> jsstring \<Rightarrow> jsstring" where
  "model_or cfg d = (case model cfg of None \<Rightarrow> d | Some m \<Rightarrow> if m = [] then d else m)"

definition system_text :: jsstring where
  "system_text =
     js ''You are a professional CV/resume analyzer and adapter. Always respond with valid JSON.''"

definition openai_request :: "APIProviderConfig \<Rightarrow> jsstring \<Rightarrow> http_request" where
  "openai_request cfg prompt =
     \<lparr>url = js ''https://api.openai.com/v1/chat/completions'',
      body = JObj
        [(js ''model'', JStr (model_or cfg (js ''gpt-4-turbo-preview''))),
         (js ''messages'', JArr
            [JObj [(js ''role'', JStr (js ''system'')), (js ''content'', JStr system_text)],
             JObj [(js ''role'', JStr (js ''user'')), (js ''content'', JStr prompt)]]),
         (js ''response_format'', JObj [(js ''type'', JStr (js ''json_object''))]),
         (js ''temperature'', JNum (to_double False 7 10))],
      headers =
        [(js ''Authorization'', js ''Bearer '' @ apiKey cfg),
         (js ''Content-Type'', js ''application/json'')]\<rparr>"

definition claude_request :: "APIProviderConfig \<Rightarrow> jsstring \<Rightarrow> http_request" where
  "claude_request cfg prompt =
     \<lparr>url = js ''https://api.anthropic.com/v1/messages'',
      body = JObj
        [(js ''model'', JStr (model_or cfg (js ''claude-3-5-sonnet-20241022''))),
         (js ''max_tokens'', JNum (Num 4096)),
         (js ''messages'', JArr
            [JObj [(js ''role'', JStr (js ''user'')), (js ''content'', JStr prompt)]]),
         (js ''system'', JStr system_text)],
      headers =
        [(js ''x-api-key'', apiKey cfg),
         (js ''anthropic-version'', js ''2023-06-01''),
         (js ''Content-Type'', js ''application/json'')]\<rparr>"

text \<open>
  One exchange: the request is handed to \<open>axios.post\<close>, and the reply text is read from the
  response along \<open>path\<close>. Whatever is thrown inside the \<open>try\<close> block, by the transport or
  by a property read, is thrown again as an \<open>Error\<close> whose message starts with \<open>label\<close>.
\<close>

definition exchange ::
  "env \<Rightarrow> world \<Rightarrow> http_request \<Rightarrow> jsstring list \<Rightarrow> jsstring \<Rightarrow> (error + jsvalue) \<times> world" where
  "exchange E w req path label =
     (let w' = w\<lparr>sent := sent w @ [req]\<rparr> in
      case post E (length (sent w)) req of
        Failure t \<Rightarrow> (Inl (Error (label @ t)), w')
      | Response data \<Rightarrow>
          (case read_path (Some data) path of
             Inl e \<Rightarrow> (Inl (Error (label @ typeErrorMessage E)), w')
           | Inr v \<Rightarrow> (Inr v, w')))"

definition callOpenAI :: "env \<Rightarrow> world \<Rightarrow> jsstring \<Rightarrow> (error + jsvalue) \<times> world" where
  "callOpenAI E w prompt =
     (case config w of
        None \<Rightarrow> (Inl (Error (js ''API configuration not set'')), w)
      | Some cfg \<Rightarrow>
          exchange E w (openai_request cfg prompt)
            [js ''choices'', js ''0'', js ''message'', js ''content'']
            (js ''OpenAI API error: ''))"

definition callClaude :: "env \<Rightarrow> world \<Rightarrow> jsstring \<Rightarrow> (error + jsvalue) \<times> world" where
  "callClaude E w prompt =
     (case config w of
        None \<Rightarrow> (Inl (Error (js ''API configuration not set'')), w)
      | Some cfg \<Rightarrow>
          exchange E w (claude_request cfg prompt)
            [js ''content'', js ''0'', js ''text'']
            (js ''Claude API error: ''))"

definition callAPI :: "env \<Rightarrow> world \<Rightarrow> jsstring \<Rightarrow> (error + jsvalue) \<times> world" where
  "callAPI E w prompt =
     (case config w of
        None \<Rightarrow> (Inl (Error (js ''API configuration not set'')), w)
      | Some cfg \<Rightarrow>
          if provider cfg = openai then callOpenAI E w prompt else callClaude E w prompt)"

section \<open>The facade\<close>

definition setConfig :: "world \<Rightarrow> APIProviderConfig \<Rightarrow> world" where
  "setConfig w cfg = w\<lparr>config := Some cfg\<rparr>"

definition ats_prompt :: "jsstring \<Rightarrow> jsstring" where
  \<open>ats_prompt cvText =
     js (concat
       [''Analyze the following CV/resume text and determine if it\'s in ATS (Applicant Tracking System) format. \<newline>'',
        ''    ATS-friendly resumes should:\<newline>'',
        ''    1. Use standard section headings (Experience, Education, Skills, etc.)\<newline>'',
        ''    2. Avoid tables, columns, graphics, or complex formatting\<newline>'',
        ''    3. Use simple, keyword-rich text\<newline>'',
        ''    4. Have clear, chronological work history\<newline>'',
        ''    5. Use standard fonts and formatting\<newline>'',
        ''    \<newline>'',
        ''    CV Text:\<newline>'',
        ''    ''])
     @ cvText @
     js (concat
       [''\<newline>'',
        ''    \<newline>'',
        ''    Respond in JSON format with:\<newline>'',
        ''    {\<newline>'',
        ''      "isATSFormat": boolean,\<newline>'',
        ''      "score": number (0-100),\<newline>'',
        ''      "issues": [list of issues found],\<newline>'',
        ''      "suggestions": [list of suggestions to improve ATS compatibility]\<newline>'',
        ''    }''])\<close>

definition adapt_prompt :: "jsstring \<Rightarrow> jsstring \<Rightarrow> jsstring" where
  \<open>adapt_prompt cvText jobDescription =
     js (concat
       [''Compare the following CV with the job description and create an adapted version that highlights relevant skills and experiences.\<newline>'',
        ''\<newline>'',
        ''    Original CV:\<newline>'',
        ''    ''])
     @ cvText @
     js (concat
       [''\<newline>'',
        ''\<newline>'',
        ''    Job Description:\<newline>'',
        ''    ''])
     @ jobDescription @
     js (concat
       [''\<newline>'',
        ''\<newline>'',
        ''    Create an adapted CV that:\<newline>'',
        ''    1. Highlights skills and experiences most relevant to the job\<newline>'',
        ''    2. Reorders sections to emphasize relevant qualifications\<newline>'',
        ''    3. Adds relevant keywords from the job description naturally\<newline>'',
        ''    4. Maintains ATS-friendly format\<newline>'',
        ''    5. Generates LaTeX code for the adapted CV\<newline>'',
        ''\<newline>'',
        ''    Respond in JSON format with:\<newline>'',
        ''    {\<newline>'',
        ''      "adaptedCV": "the adapted CV text",\<newline>'',
        ''      "latexCode": "complete LaTeX document code for the CV",\<newline>'',
        ''      "changes": ["list of key changes made"],\<newline>'',
        ''      "highlightedSkills": ["list of skills that were highlighted"]\<newline>'',
        ''    }''])\<close>

definition checkATSFormat :: "env \<Rightarrow> world \<Rightarrow> jsstring \<Rightarrow> (error + ATSFormatCheck) \<times> world" where
  "checkATSFormat E w cvText =
     (case config w of
        None \<Rightarrow> (Inl (Error (js ''API configuration not set'')), w)
      | Some cfg \<Rightarrow>
          (case callAPI E w (ats_prompt cvText) of
             (Inl e, w') \<Rightarrow> (Inl e, w')
           | (Inr response, w') \<Rightarrow>
               (case parseATSResponse w' response of (r, w'') \<Rightarrow> (Inr r, w''))))"

definition adaptCVToJob ::
  "env \<Rightarrow> world \<Rightarrow> jsstring \<Rightarrow> jsstring \<Rightarrow> (error + CVAdaptationResult) \<times> world" where
  "adaptCVToJob E w cvText jobDescription =
     (case config w of
        None \<Rightarrow> (Inl (Error (js ''API configuration not set'')), w)
      | Some cfg \<Rightarrow>
          (case callAPI E w (adapt_prompt cvText jobDescription) of
             (Inl e, w') \<Rightarrow> (Inl e, w')
           | (Inr response, w') \<Rightarrow>
               (case parseAdaptationResponse w' response of (r, w'') \<Rightarrow> (Inr r, w''))))"


section \<open>Runs of the service\<close>

text \<open>
  The calls a client can make on the service object, and what each of them returns or
  throws. A run makes the calls of a list one after the other.
\<close>

datatype call =
    SetConfig APIProviderConfig
  | CheckATSFormat jsstring
  | AdaptCVToJob jsstring jsstring

datatype result =
    Unit
  | Checked "error + ATSFormatCheck"
  | Adapted "error + CVAdaptationResult"

fun step :: "env \<Rightarrow> world \<Rightarrow> call \<Rightarrow> result \<times> world" where
  "step E w (SetConfig cfg) = (Unit, setConfig w cfg)"
| "step E w (CheckATSFormat cvText) =
     (case checkATSFormat E w cvText of (r, w') \<Rightarrow> (Checked r, w'))"
| "step E w (AdaptCVToJob cvText jobDescription) =
     (case adaptCVToJob E w cvText jobDescription of (r, w') \<Rightarrow> (Adapted r, w'))"

fun run :: "env \<Rightarrow> world \<Rightarrow> call list \<Rightarrow> result list \<times> world" where
  "run E w [] = ([], w)"
| "run E w (c # cs) =
     (case step E w c of
        (r, w') \<Rightarrow> (case run E w' cs of (rs, w'') \<Rightarrow> (r # rs, w'')))"

definition not_set :: error where
  "not_set = Error (js ''API configuration not set'')"

definition config_failure :: "result \<Rightarrow> bool" where
  "config_failure r \<longleftrightarrow> r = Checked (Inl not_set) \<or> r = Adapted (Inl not_set)"

text \<open>An environment whose network is down, and a configuration, for concrete runs.\<close>

definition down :: env where
  "down = \<lparr>post = (\<lambda>n req. Failure (js ''Network Error'')), typeErrorMessage = []\<rparr>"

definition cfg0 :: APIProviderConfig where
  "cfg0 = \<lparr>provider = claude, apiKey = js ''key'', model = None\<rparr>"

section \<open>Notions of the specification\<close>

text \<open>A score that lies in the range from 0 to 100 (the negative zero is a zero).\<close>

definition score_in_range :: "json \<Rightarrow> bool" where
  "score_in_range v =
     (case v of
        JNum (Num x) \<Rightarrow> 0 \<le> x \<and> x \<le> 100
      | JNum MinusZero \<Rightarrow> True
      | _ \<Rightarrow> False)"

text \<open>
  The expected fields of the two results with their defaults: the name in the payload,
  the field of the result, and the default of the source. (\<open>latexCode\<close> has no constant
  default and is treated on its own.)
\<close>

definition ats_fields :: "(jsstring \<times> (ATSFormatCheck \<Rightarrow> json) \<times> json) list" where
  "ats_fields =
     [(js ''isATSFormat'', isATSFormat, JBool False),
      (js ''score'', score, JNum (Num 0)),
      (js ''issues'', issues, JArr []),
      (js ''suggestions'', suggestions, JArr [])]"

definition adaptation_fields :: "(jsstring \<times> (CVAdaptationResult \<Rightarrow> json) \<times> json) list" where
  "adaptation_fields =
     [(js ''adaptedCV'', adaptedCV, JStr []),
      (js ''changes'', changes, JArr []),
      (js ''highlightedSkills'', highlightedSkills, JArr [])]"

fun is_string :: "jsvalue \<Rightarrow> bool" where
  "is_string (Some (JStr t)) = True"
| "is_string _ = False"

text \<open>
  The payloads on which the \<open>try\<close> block of \<open>parseAdaptationResponse\<close> does not hand a
  value that is not a string to the renderer.
\<close>

definition renders_safely :: "json \<Rightarrow> bool" where
  "renders_safely parsed \<longleftrightarrow>
     truthy (get_prop parsed (js ''latexCode''))
     \<or> \<not> truthy (get_prop parsed (js ''adaptedCV''))
     \<or> is_string (get_prop parsed (js ''adaptedCV''))"

text \<open>
  The escaping as the specification words it: one pass from left to right that replaces
  each of the ten significant characters by its escape sequence and keeps every other
  code unit, so that nothing a replacement has written is escaped again.
\<close>

definition escape_char :: "unit16 \<Rightarrow> jsstring" where
  "escape_char x =
     (if x = U BS then js (BS # ''textbackslash{}'')
      else if x = U CHR ''{'' then js (BS # ''{'')
      else if x = U CHR ''}'' then js (BS # ''}'')
      else if x = U CHR ''#'' then js (BS # ''#'')
      else if x = U CHR ''$'' then js (BS # ''$'')
      else if x = U CHR ''%'' then js (BS # ''%'')
      else if x = U CHR ''&'' then js (BS # ''&'')
      else if x = U CHR ''^'' then js (BS # ''textasciicircum{}'')
      else if x = U CHR ''_'' then js (BS # ''_'')
      else if x = U CHR ''~'' then js (BS # ''textasciitilde{}'')
      else [x])"

definition escape_single_pass :: "jsstring \<Rightarrow> jsstring" where
  "escape_single_pass s = concat (map escape_char s)"

text \<open>The first three lines of a text, the lines being separated by line feeds.\<close>

definition first_three_lines :: "jsstring \<Rightarrow> jsstring" where
  "first_three_lines e = join [0x0A] (slice 0 3 (split e [0x0A]))"

text \<open>\<open>adj a b xs\<close>: somewhere in \<open>xs\<close> an \<open>a\<close> is followed at once by a \<open>b\<close>.\<close>

fun adj :: "'a \<Rightarrow> 'a \<Rightarrow> 'a list \<Rightarrow> bool" where
  "adj a b (x # y # zs) = ((x = a \<and> y = b) \<or> adj a b (y # zs))"
| "adj a b _ = False"

section \<open>The candidate payload\<close>







section \<open>Decoding\<close>

text \<open>Evaluation of the decoder and of the normalizer on a concrete text.\<close>

lemmas json_eval =
  JSON_parse_def js_def is_ws_def is_digit_def lex_number_def lex_sign_def lex_int_def
  lex_frac_def lex_exp_def lex_exp_digits_def digits_val_def digit_val_def
  decimal_to_double_def to_double_def binary_exponent_def pow2_le_def pow2_def
  round_half_even_def bit_length.simps Let_def
  hex4_def hex_val_def simple_escape_def

lemmas parse_eval =
  parseATSResponse_def parseATSResponse_try_def parseAdaptationResponse_def
  parseAdaptationResponse_try_def logical_or_def

text \<open>
  A decimal literal decodes to the double nearest to it: \<open>0.1\<close> to
  \<open>3602879701896397 / 2\<^sup>5\<^sup>5\<close>, the odd integer \<open>2\<^sup>5\<^sup>3 + 1\<close> to \<open>2\<^sup>5\<^sup>3\<close>, the least subnormal
  \<open>5e-324\<close> to \<open>2\<^sup>-\<^sup>1\<^sup>0\<^sup>7\<^sup>4\<close>, a literal below half of it to a zero of the literal's sign,
  and a literal of magnitude \<open>1e400\<close> to an infinity. The bit length of a large power
  of ten is read off its bounds.
\<close>

lemma bit_length_bounds: "2 ^ k \<le> n \<Longrightarrow> n < 2 ^ Suc k \<Longrightarrow> bit_length n = Suc k"
proof (induction k arbitrary: n)
  case 0
  then have "n = 1" by simp
  then show ?case by (simp add: bit_length.simps)
next
  case (Suc k)
  then have "2 ^ k \<le> n div 2" and "n div 2 < 2 ^ Suc k" by auto
  with Suc.IH have "bit_length (n div 2) = Suc k" by blast
  moreover from Suc.prems have "n \<noteq> 0" by auto
  ultimately show ?case by (subst bit_length.simps) simp
qed

lemma bit_length_1: "bit_length 1 = 1" "bit_length (Suc 0) = 1"
  by (simp_all add: bit_length.simps)

lemma bit_length_10_400: "bit_length (10 ^ 400) = 1329"
  using bit_length_bounds [of 1328 "10 ^ 400"] by simp

lemmas number_eval =
  JSON_parse_def js_def is_ws_def is_digit_def lex_number_def lex_sign_def lex_int_def
  lex_frac_def lex_exp_def lex_exp_digits_def digits_val_def digit_val_def
  decimal_to_double_def to_double_def binary_exponent_def pow2_le_def pow2_def
  round_half_even_def Let_def

lemma decode_nearest_double:
  "JSON_parse (js ''0.1'') = Some (JNum (Num (3602879701896397 / 2 ^ 55)))"
  "JSON_parse (js ''9007199254740993'') = Some (JNum (Num (2 ^ 53)))"
  "JSON_parse (js ''-0'') = Some (JNum MinusZero)"
  by (simp_all add: json_eval)

lemma decode_underflow: "JSON_parse (js ''-1e-400'') = Some (JNum MinusZero)"
  by (simp add: number_eval bit_length_10_400 [simplified] bit_length_1)

lemma decode_overflow: "JSON_parse (js ''1e400'') = Some (JNum Infinity)"
  by (simp add: number_eval bit_length_10_400 [simplified] bit_length_1)

lemma decode_overflow_neg: "JSON_parse (js ''-1e400'') = Some (JNum MinusInfinity)"
  by (simp add: number_eval bit_length_10_400 [simplified] bit_length_1)

lemma bit_length_5: "bit_length 5 = 3"
  using bit_length_bounds [of 2 5] by simp

lemma bit_length_10_324: "bit_length (10 ^ 324) = 1077"
  using bit_length_bounds [of 1076 "10 ^ 324"] by simp

lemma decode_subnormal: "JSON_parse (js ''5e-324'') = Some (JNum (Num (1 / 2 ^ 1074)))"
  by (simp add: number_eval bit_length_10_324 [simplified] bit_length_5)

lemma bit_length_2: "bit_length 2 = 2"
  using bit_length_bounds [of 1 2] by simp

lemma decode_underflow_pos: "JSON_parse (js ''2e-324'') = Some (JNum (Num 0))"
  by (simp add: number_eval bit_length_10_324 [simplified] bit_length_2)

text \<open>
  A text that starts with an opening brace decodes to an object or not at all: the
  parser keeps the invariant \<open>obj_root\<close>.
\<close>

lemma obj_root_push:
  "st \<noteq> [] \<Longrightarrow> obj_root (st, m) \<Longrightarrow> obj_root (push_value v st)"
  by (cases "(v, st)" rule: push_value.cases) (auto split: frame.splits if_splits)

lemma obj_root_push_obj: "obj_root (st, m) \<Longrightarrow> obj_root (push_value (JObj kvs) st)"
  by (cases "(JObj kvs, st)" rule: push_value.cases) (auto split: frame.splits if_splits)

lemma obj_root_start:
  "st \<noteq> [] \<Longrightarrow> obj_root (st, m) \<Longrightarrow> start_value t st = Some c \<Longrightarrow> obj_root c"
  using obj_root_push [of st m]
  by (cases "(t, st)" rule: start_value.cases) (auto simp: neq_Nil_conv)

lemma obj_root_pstep:
  assumes "obj_root c" "pstep c t = Some c'"
  shows "obj_root c'"
proof -
  obtain st m where c: "c = (st, m)" by (cases c)
  show ?thesis
  proof (cases m)
    case NeedValue
    with assms c have "st \<noteq> []" by (cases st) auto
    with assms c NeedValue show ?thesis
      using obj_root_start [of st m t c'] by simp
  next
    case ArrStart
    with assms c have ne: "st \<noteq> []" by (cases st) auto
    then have r: "obj_root (FArr [] # st, m)"
      using assms c by (cases st) auto
    show ?thesis
    proof (cases "t = TRBracket")
      case True
      with assms c ArrStart ne show ?thesis
        using obj_root_push [of st m "JArr []"] by simp
    next
      case False
      with assms c ArrStart r show ?thesis
        using obj_root_start [of "FArr [] # st" m t c'] by simp
    qed
  next
    case (ObjStart kvs)
    with assms c show ?thesis
      using obj_root_push_obj [of st m "[]"]
      by (cases st) (auto split: token.splits json.splits frame.splits if_splits)
  next
    case (NeedKey kvs)
    with assms c show ?thesis
      by (cases st) (auto split: token.splits json.splits frame.splits if_splits)
  next
    case (NeedColon kvs k)
    with assms c show ?thesis
      by (cases st) (auto split: token.splits json.splits frame.splits if_splits)
  next
    case AfterValue
    show ?thesis
    proof (cases st)
      case Nil
      with assms c AfterValue show ?thesis by simp
    next
      case (Cons f st')
      show ?thesis
      proof (cases f)
        case (FArr es)
        with assms c Cons have ne: "st' \<noteq> []" by (cases st') auto
        with assms c Cons FArr have r: "obj_root (st', m)" by (cases st') auto
        from assms c AfterValue Cons FArr ne r show ?thesis
          using obj_root_push [of st' m "JArr es"]
          by (auto split: if_splits)
      next
        case (FObj kvs k)
        show ?thesis
        proof (cases st')
          case Nil
          with assms c AfterValue Cons FObj show ?thesis
            by (auto split: if_splits)
        next
          case (Cons g st'')
          with assms c \<open>st = f # st'\<close> FObj have r: "obj_root (st', m)" by auto
          from assms c AfterValue \<open>st = f # st'\<close> FObj Cons r show ?thesis
            using obj_root_push [of st' m "JObj kvs"]
            by (auto split: if_splits)
        qed
      qed
    qed
  next
    case (Done v)
    with assms c show ?thesis by simp
  qed
qed

lemma prun_obj_root:
  "obj_root c \<Longrightarrow> prun c ts = Some v \<Longrightarrow> \<exists>kvs. v = JObj kvs"
proof (induction ts arbitrary: c)
  case Nil
  obtain st m where c: "c = (st, m)" by (cases c)
  with Nil show ?case
    by (cases st; cases m; cases v) (auto split: json.splits frame.splits)
next
  case (Cons t ts)
  obtain st m where c: "c = (st, m)" by (cases c)
  with Cons.prems obtain c' where s: "pstep c t = Some c'" and r: "prun c' ts = Some v"
    by (auto split: option.splits)
  from obj_root_pstep [OF Cons.prems(1) s] Cons.IH r show ?case by blast
qed

lemma jsonMatch_starts_with_brace:
  "jsonMatch s = Some m \<Longrightarrow> \<exists>cs. m = U CHR ''{'' # cs"
  by (induction s) (auto split: if_splits option.splits)

lemma JSON_parse_brace_object:
  assumes "JSON_parse (U CHR ''{'' # cs) = Some v"
  shows "\<exists>kvs. v = JObj kvs"
proof -
  have l: "lex (U CHR ''{'' # cs) = map_option (Cons TLBrace) (lex cs)"
    by (simp add: is_ws_def)
  from assms l obtain ts where ts: "lex cs = Some ts"
    and p: "prun ([], NeedValue) (TLBrace # ts) = Some v"
    by (auto simp: JSON_parse_def split: option.splits)
  from p have "prun ([], ObjStart []) ts = Some v" by simp
  with prun_obj_root [of "([], ObjStart [])" ts v] show ?thesis by simp
qed

lemma parsed_match_is_object:
  "jsonMatch s = Some m \<Longrightarrow> JSON_parse m = Some v \<Longrightarrow> \<exists>kvs. v = JObj kvs"
  using jsonMatch_starts_with_brace JSON_parse_brace_object by blast

section \<open>The response normalizer: results\<close>

text \<open>
  Claim C1, as stated: the score of the result lies in the range from 0 to 100, a payload
  score of 150 yielding 100 and one of -5 yielding 0. The source has no clamp: the
  payload \<open>{"score": 150}\<close> yields the score 150, and \<open>{"score": -5}\<close> yields -5.
\<close>

theorem score_not_clamped_counterexample:
  "score (fst (parseATSResponse init (str (js ''{\"score\": 150}'')))) = JNum (Num 150)
   \<and> \<not> score_in_range (score (fst (parseATSResponse init (str (js ''{\"score\": 150}'')))))
   \<and> score (fst (parseATSResponse init (str (js ''{\"score\": -5}'')))) = JNum (Num (- 5))
   \<and> \<not> score_in_range (score (fst (parseATSResponse init (str (js ''{\"score\": -5}'')))))"
  by (simp add: parse_eval json_eval score_in_range_def)

text \<open>
  Claim C1, amended: for every reply whose extracted payload decodes and holds a numeric
  score, the result holds that score as \<open>JSON.parse\<close> decoded it, the double nearest to
  the literal, unchanged; it lies in the range from 0 to 100 exactly when the decoded score
  is a zero or a number from 0 to 100.
\<close>

theorem score_passed_through:
  assumes "jsonMatch s = Some m"
    and "JSON_parse m = Some parsed"
    and "get_prop parsed (js ''score'') = Some (JNum n)"
  shows "score (fst (parseATSResponse w (str s))) = JNum n
       \<and> (score_in_range (score (fst (parseATSResponse w (str s))))
            \<longleftrightarrow> n = MinusZero \<or> (\<exists>x. n = Num x \<and> 0 \<le> x \<and> x \<le> 100))"
proof -
  from assms(3) have "parsed \<noteq> JNull" by auto
  with assms show ?thesis
    by (cases n) (simp_all add: parseATSResponse_def parseATSResponse_try_def score_in_range_def)
qed

theorem score_passed_through_witness:
  "jsonMatch (js ''{\"score\": 150}'') = Some (js ''{\"score\": 150}'')
   \<and> JSON_parse (js ''{\"score\": 150}'') = Some (JObj [(js ''score'', JNum (Num 150))])
   \<and> get_prop (JObj [(js ''score'', JNum (Num 150))]) (js ''score'') = Some (JNum (Num 150))
   \<and> score (fst (parseATSResponse init (str (js ''{\"score\": 150}'')))) = JNum (Num 150)
   \<and> \<not> score_in_range (score (fst (parseATSResponse init (str (js ''{\"score\": 150}'')))))
   \<and> jsonMatch (js ''{\"score\": 100.00000000000000001}'')
       = Some (js ''{\"score\": 100.00000000000000001}'')
   \<and> JSON_parse (js ''{\"score\": 100.00000000000000001}'')
       = Some (JObj [(js ''score'', JNum (Num 100))])
   \<and> score (fst (parseATSResponse init (str (js ''{\"score\": 100.00000000000000001}''))))
       = JNum (Num 100)
   \<and> score_in_range
         (score (fst (parseATSResponse init (str (js ''{\"score\": 100.00000000000000001}'')))))"
proof -
  have a: "jsonMatch (js ''{\"score\": 150}'') = Some (js ''{\"score\": 150}'')"
    by (simp add: js_def)
  have b: "JSON_parse (js ''{\"score\": 150}'') = Some (JObj [(js ''score'', JNum (Num 150))])"
    by (simp add: json_eval)
  have c: "get_prop (JObj [(js ''score'', JNum (Num 150))]) (js ''score'') = Some (JNum (Num 150))"
    by simp
  have a': "jsonMatch (js ''{\"score\": 100.00000000000000001}'')
       = Some (js ''{\"score\": 100.00000000000000001}'')"
    by (simp add: js_def)
  have b': "JSON_parse (js ''{\"score\": 100.00000000000000001}'')
       = Some (JObj [(js ''score'', JNum (Num 100))])"
    by (simp add: json_eval)
  have c': "get_prop (JObj [(js ''score'', JNum (Num 100))]) (js ''score'') = Some (JNum (Num 100))"
    by simp
  from score_passed_through [OF a b c, of init]
  have r: "score (fst (parseATSResponse init (str (js ''{\"score\": 150}'')))) = JNum (Num 150)"
    and o: "\<not> score_in_range (score (fst (parseATSResponse init (str (js ''{\"score\": 150}'')))))"
    by (simp_all add: score_in_range_def)
  from score_passed_through [OF a' b' c', of init]
  have r': "score (fst (parseATSResponse init (str (js ''{\"score\": 100.00000000000000001}''))))
       = JNum (Num 100)"
    and i': "score_in_range
         (score (fst (parseATSResponse init (str (js ''{\"score\": 100.00000000000000001}'')))))"
    by (simp_all add: score_in_range_def)
  from a b c r o a' b' r' i' show ?thesis by blast
qed



text \<open>
  Claim C3. The two methods return a result for every input: whatever the \<open>try\<close> block
  throws is caught, and the \<open>catch\<close> block only logs and builds the fallback record. On
  every string with no match of the regular expression, and on every string whose
  candidate does not decode, \<open>parseATSResponse\<close> returns exactly the assessment fallback and
  \<open>parseAdaptationResponse\<close> exactly the adaptation fallback, whose document is the
  renderer applied to the empty string.
\<close>

theorem parse_failure_gives_fallback:
  assumes "jsonMatch s = None \<or> (\<exists>m. jsonMatch s = Some m \<and> JSON_parse m = None)"
  shows "fst (parseATSResponse w (str s)) =
           \<lparr>isATSFormat = JBool False,
            score = JNum (Num 0),
            issues = JArr [JStr (js ''Failed to parse API response'')],
            suggestions = JArr [JStr (js ''Please check the API response format'')]\<rparr>
       \<and> fst (parseAdaptationResponse w (str s)) =
           \<lparr>adaptedCV = JStr [],
            latexCode = JStr (generateDefaultLaTeX []),
            changes = JArr [JStr (js ''Failed to parse API response'')],
            highlightedSkills = JArr []\<rparr>
       \<and> (fst (parseATSResponse_try w v) = Inr (fst (parseATSResponse w v))
            \<or> fst (parseATSResponse w v) = ats_fallback)
       \<and> (fst (parseAdaptationResponse_try w v) = Inr (fst (parseAdaptationResponse w v))
            \<or> fst (parseAdaptationResponse w v) = adaptation_fallback)"
proof -
  have a: "fst (parseATSResponse_try w v) = Inr (fst (parseATSResponse w v))
            \<or> fst (parseATSResponse w v) = ats_fallback"
    by (cases "parseATSResponse_try w v"; cases "fst (parseATSResponse_try w v)")
       (simp_all add: parseATSResponse_def)
  have b: "fst (parseAdaptationResponse_try w v) = Inr (fst (parseAdaptationResponse w v))
            \<or> fst (parseAdaptationResponse w v) = adaptation_fallback"
    by (cases "parseAdaptationResponse_try w v"; cases "fst (parseAdaptationResponse_try w v)")
       (simp_all add: parseAdaptationResponse_def)
  from assms a b show ?thesis
    by (auto simp: parseATSResponse_def parseATSResponse_try_def parseAdaptationResponse_def
        parseAdaptationResponse_try_def ats_fallback_def adaptation_fallback_def)
qed

theorem parse_failure_gives_fallback_witness:
  "jsonMatch (js ''not json at all'') = None
   \<and> fst (parseATSResponse init (str (js ''not json at all''))) =
           \<lparr>isATSFormat = JBool False,
            score = JNum (Num 0),
            issues = JArr [JStr (js ''Failed to parse API response'')],
            suggestions = JArr [JStr (js ''Please check the API response format'')]\<rparr>
   \<and> fst (parseAdaptationResponse init (str (js ''not json at all''))) =
           \<lparr>adaptedCV = JStr [],
            latexCode = JStr (generateDefaultLaTeX []),
            changes = JArr [JStr (js ''Failed to parse API response'')],
            highlightedSkills = JArr []\<rparr>
   \<and> jsonMatch (js ''Here: {score: 90}'') = Some (js ''{score: 90}'')
   \<and> JSON_parse (js ''{score: 90}'') = None
   \<and> fst (parseATSResponse init (str (js ''Here: {score: 90}''))) =
           \<lparr>isATSFormat = JBool False,
            score = JNum (Num 0),
            issues = JArr [JStr (js ''Failed to parse API response'')],
            suggestions = JArr [JStr (js ''Please check the API response format'')]\<rparr>
   \<and> fst (parseAdaptationResponse init (str (js ''Here: {score: 90}''))) =
           \<lparr>adaptedCV = JStr [],
            latexCode = JStr (generateDefaultLaTeX []),
            changes = JArr [JStr (js ''Failed to parse API response'')],
            highlightedSkills = JArr []\<rparr>"
proof -
  have a: "jsonMatch (js ''not json at all'') = None" by (simp add: js_def)
  have b: "jsonMatch (js ''Here: {score: 90}'') = Some (js ''{score: 90}'')"
    by (simp add: js_def)
  have c: "JSON_parse (js ''{score: 90}'') = None" by (simp add: json_eval)
  from b c have d: "jsonMatch (js ''Here: {score: 90}'') = None
      \<or> (\<exists>m. jsonMatch (js ''Here: {score: 90}'') = Some m \<and> JSON_parse m = None)"
    by blast
  from parse_failure_gives_fallback [of "js ''not json at all''" init]
    parse_failure_gives_fallback [OF d, of init] a b c
  show ?thesis by blast
qed

text \<open>
  Claim C7, as stated: a field of the wrong shape is replaced by its default. The source
  tests a field for presence only, never for its shape: a payload whose four fields are a
  string, a string, a number and an object yields exactly these four values.
\<close>

theorem wrong_shape_kept_counterexample:
  "fst (parseATSResponse init
     (str (js ''{\"isATSFormat\": \"yes\", \"score\": \"high\", \"issues\": 7, \"suggestions\": {}}'')))
   = \<lparr>isATSFormat = JStr (js ''yes''), score = JStr (js ''high''), issues = JNum (Num 7),
      suggestions = JObj []\<rparr>
   \<and> fst (parseATSResponse init
     (str (js ''{\"isATSFormat\": \"yes\", \"score\": \"high\", \"issues\": 7, \"suggestions\": {}}'')))
   \<noteq> \<lparr>isATSFormat = JBool False, score = JNum (Num 0), issues = JArr [], suggestions = JArr []\<rparr>"
  by (simp add: parse_eval json_eval)

lemma nullish_coalesce_cases:
  "nullish_coalesce a d = (case a of None \<Rightarrow> d | Some JNull \<Rightarrow> d | Some v \<Rightarrow> v)"
  by (cases "(a, d)" rule: nullish_coalesce.cases) simp_all

lemma logical_or_cases:
  "logical_or a d = (case a of None \<Rightarrow> d | Some v \<Rightarrow> if truthy (Some v) then v else d)"
  by (cases a) (simp_all add: logical_or_def)

text \<open>
  Claim C7, amended. For every decodable candidate payload: each field of the assessment
  is its default (false, 0, the empty list) when the payload lacks it or holds \<open>null\<close>
  for it, and is the value of the payload, of whatever shape, otherwise. Each of the fields
  \<open>adaptedCV\<close>, \<open>changes\<close> and \<open>highlightedSkills\<close> of the adaptation is its default (the empty
  string, the empty list) when the payload lacks it or holds a falsy value for it
  (\<open>null\<close>, \<open>false\<close>, zero, the empty string), and is the value of the payload, of
  whatever shape, otherwise; this holds when the renderer is not handed a value that is not
  a string, and in the remaining case the adaptation is the fallback record.
\<close>

theorem fields_defaulted:
  assumes "jsonMatch s = Some m" and "JSON_parse m = Some parsed"
  shows "(\<forall>(k, field, d) \<in> set ats_fields.
            field (fst (parseATSResponse w (str s)))
              = (case get_prop parsed k of None \<Rightarrow> d | Some JNull \<Rightarrow> d | Some v \<Rightarrow> v))
       \<and> (renders_safely parsed \<longrightarrow>
            (\<forall>(k, field, d) \<in> set adaptation_fields.
               field (fst (parseAdaptationResponse w (str s)))
                 = (case get_prop parsed k of
                      None \<Rightarrow> d
                    | Some v \<Rightarrow> if truthy (Some v) then v else d)))
       \<and> (\<not> renders_safely parsed \<longrightarrow>
            fst (parseAdaptationResponse w (str s)) = adaptation_fallback)"
proof -
  from parsed_match_is_object [OF assms] obtain kvs where kvs: "parsed = JObj kvs" by blast
  have a: "\<forall>(k, field, d) \<in> set ats_fields.
            field (fst (parseATSResponse w (str s)))
              = (case get_prop parsed k of None \<Rightarrow> d | Some JNull \<Rightarrow> d | Some v \<Rightarrow> v)"
    using assms kvs
    by (simp add: ats_fields_def parseATSResponse_def parseATSResponse_try_def
        nullish_coalesce_cases)
  have b: "renders_safely parsed \<longrightarrow>
            (\<forall>(k, field, d) \<in> set adaptation_fields.
               field (fst (parseAdaptationResponse w (str s)))
                 = (case get_prop parsed k of
                      None \<Rightarrow> d
                    | Some v \<Rightarrow> if truthy (Some v) then v else d))"
  proof
    assume r: "renders_safely parsed"
    have ok: "\<not> truthy (get_prop parsed (js ''latexCode'')) \<Longrightarrow>
      \<exists>t. logical_or (get_prop parsed (js ''adaptedCV'')) (JStr []) = JStr t"
      using r
      by (cases "get_prop parsed (js ''adaptedCV'')" rule: is_string.cases)
         (auto simp: renders_safely_def logical_or_def)
    show "\<forall>(k, field, d) \<in> set adaptation_fields.
               field (fst (parseAdaptationResponse w (str s)))
                 = (case get_prop parsed k of
                      None \<Rightarrow> d
                    | Some v \<Rightarrow> if truthy (Some v) then v else d)"
    proof (cases "truthy (get_prop parsed (js ''latexCode''))")
      case True
      with assms kvs show ?thesis
        by (simp add: adaptation_fields_def parseAdaptationResponse_def
            parseAdaptationResponse_try_def logical_or_cases)
    next
      case False
      from ok [OF False] obtain t where
        t: "logical_or (get_prop parsed (js ''adaptedCV'')) (JStr []) = JStr t" by blast
      with assms kvs False show ?thesis
        by (simp add: adaptation_fields_def parseAdaptationResponse_def
            parseAdaptationResponse_try_def)
           (simp add: logical_or_cases)
    qed
  qed
  have c: "\<not> renders_safely parsed \<longrightarrow>
            fst (parseAdaptationResponse w (str s)) = adaptation_fallback"
  proof
    assume r: "\<not> renders_safely parsed"
    then have f: "\<not> truthy (get_prop parsed (js ''latexCode''))"
      and g: "truthy (get_prop parsed (js ''adaptedCV''))"
      and h: "\<not> is_string (get_prop parsed (js ''adaptedCV''))"
      by (simp_all add: renders_safely_def)
    from g h have "generateDefaultLaTeX_call w
        (logical_or (get_prop parsed (js ''adaptedCV'')) (JStr [])) = (Inl TypeError, w)"
      by (cases "get_prop parsed (js ''adaptedCV'')" rule: is_string.cases)
         (auto simp: logical_or_def split: json.splits)
    with assms kvs f show "fst (parseAdaptationResponse w (str s)) = adaptation_fallback"
      by (simp add: parseAdaptationResponse_def parseAdaptationResponse_try_def)
  qed
  from a b c show ?thesis by blast
qed


theorem fields_defaulted_witness:
  "jsonMatch (js ''{\"score\": null, \"issues\": \"none\", \"adaptedCV\": 0, \"changes\": [\"a\"]}'')
     = Some (js ''{\"score\": null, \"issues\": \"none\", \"adaptedCV\": 0, \"changes\": [\"a\"]}'')
   \<and> JSON_parse (js ''{\"score\": null, \"issues\": \"none\", \"adaptedCV\": 0, \"changes\": [\"a\"]}'')
     = Some (JObj [(js ''score'', JNull), (js ''issues'', JStr (js ''none'')),
                   (js ''adaptedCV'', JNum (Num 0)), (js ''changes'', JArr [JStr (js ''a'')])])
   \<and> renders_safely (JObj [(js ''score'', JNull), (js ''issues'', JStr (js ''none'')),
                   (js ''adaptedCV'', JNum (Num 0)), (js ''changes'', JArr [JStr (js ''a'')])])
   \<and> (js ''score'', score, JNum (Num 0)) \<in> set ats_fields
   \<and> score (fst (parseATSResponse init
         (str (js ''{\"score\": null, \"issues\": \"none\", \"adaptedCV\": 0, \"changes\": [\"a\"]}''))))
       = JNum (Num 0)
   \<and> (js ''issues'', issues, JArr []) \<in> set ats_fields
   \<and> issues (fst (parseATSResponse init
         (str (js ''{\"score\": null, \"issues\": \"none\", \"adaptedCV\": 0, \"changes\": [\"a\"]}''))))
       = JStr (js ''none'')
   \<and> (js ''adaptedCV'', adaptedCV, JStr []) \<in> set adaptation_fields
   \<and> adaptedCV (fst (parseAdaptationResponse init
         (str (js ''{\"score\": null, \"issues\": \"none\", \"adaptedCV\": 0, \"changes\": [\"a\"]}''))))
       = JStr []
   \<and> (js ''changes'', changes, JArr []) \<in> set adaptation_fields
   \<and> changes (fst (parseAdaptationResponse init
         (str (js ''{\"score\": null, \"issues\": \"none\", \"adaptedCV\": 0, \"changes\": [\"a\"]}''))))
       = JArr [JStr (js ''a'')]
   \<and> jsonMatch (js ''{\"adaptedCV\": 5}'') = Some (js ''{\"adaptedCV\": 5}'')
   \<and> JSON_parse (js ''{\"adaptedCV\": 5}'') = Some (JObj [(js ''adaptedCV'', JNum (Num 5))])
   \<and> \<not> renders_safely (JObj [(js ''adaptedCV'', JNum (Num 5))])
   \<and> fst (parseAdaptationResponse init (str (js ''{\"adaptedCV\": 5}''))) = adaptation_fallback"
proof -
  let ?R = "js ''{\"score\": null, \"issues\": \"none\", \"adaptedCV\": 0, \"changes\": [\"a\"]}''"
  let ?P = "JObj [(js ''score'', JNull), (js ''issues'', JStr (js ''none'')),
                   (js ''adaptedCV'', JNum (Num 0)), (js ''changes'', JArr [JStr (js ''a'')])]"
  have a: "jsonMatch ?R = Some ?R" by (simp add: js_def)
  have b: "JSON_parse ?R = Some ?P" by (simp add: json_eval)
  have c: "renders_safely ?P" by (simp add: renders_safely_def js_def)
  have g: "get_prop ?P (js ''score'') = Some JNull"
    "get_prop ?P (js ''issues'') = Some (JStr (js ''none''))"
    "get_prop ?P (js ''adaptedCV'') = Some (JNum (Num 0))"
    "get_prop ?P (js ''changes'') = Some (JArr [JStr (js ''a'')])"
    by (simp_all add: js_def)
  have a': "jsonMatch (js ''{\"adaptedCV\": 5}'') = Some (js ''{\"adaptedCV\": 5}'')"
    by (simp add: js_def)
  have b': "JSON_parse (js ''{\"adaptedCV\": 5}'') = Some (JObj [(js ''adaptedCV'', JNum (Num 5))])"
    by (simp add: json_eval)
  have c': "\<not> renders_safely (JObj [(js ''adaptedCV'', JNum (Num 5))])"
    by (simp add: renders_safely_def js_def)
  from fields_defaulted [OF a b, of init] fields_defaulted [OF a' b', of init] a b c g a' b' c'
  show ?thesis
    by (simp add: ats_fields_def adaptation_fields_def)
qed

text \<open>
  Claim C8, as stated: the renderer is invoked only when the payload omits
  \<open>latexCode\<close>, and a supplied value is passed through. The source tests the field with
  \<open>||\<close>: a payload that supplies the empty string for \<open>latexCode\<close> gets the rendered
  document of its \<open>adaptedCV\<close> instead of the value it supplied.
\<close>

theorem present_latexCode_replaced_counterexample:
  "JSON_parse (js ''{\"adaptedCV\": \"Hi\", \"latexCode\": \"\"}'')
     = Some (JObj [(js ''adaptedCV'', JStr (js ''Hi'')), (js ''latexCode'', JStr [])])
   \<and> latexCode (fst (parseAdaptationResponse init
         (str (js ''{\"adaptedCV\": \"Hi\", \"latexCode\": \"\"}''))))
       = JStr (generateDefaultLaTeX (js ''Hi''))
   \<and> generateDefaultLaTeX (js ''Hi'') \<noteq> []"
proof -
  have a: "JSON_parse (js ''{\"adaptedCV\": \"Hi\", \"latexCode\": \"\"}'')
     = Some (JObj [(js ''adaptedCV'', JStr (js ''Hi'')), (js ''latexCode'', JStr [])])"
    by (simp add: json_eval)
  have b: "latexCode (fst (parseAdaptationResponse init
         (str (js ''{\"adaptedCV\": \"Hi\", \"latexCode\": \"\"}''))))
       = JStr (generateDefaultLaTeX (js ''Hi''))"
    by (simp add: parse_eval json_eval)
  have c: "generateDefaultLaTeX (js ''Hi'') \<noteq> []"
    by (simp add: generateDefaultLaTeX_def Let_def latex_head_def js_def)
  from a b c show ?thesis by blast
qed

text \<open>
  Claim C8, amended. For every decodable adaptation payload: a truthy \<open>latexCode\<close> of the
  payload is the \<open>latexCode\<close> of the result, unmodified; when the payload lacks
  \<open>latexCode\<close> or holds a falsy value for it, the \<open>latexCode\<close> of the result is the renderer
  applied to the \<open>adaptedCV\<close> of the payload when that is a string that is not empty, and
  the renderer applied to the empty string when \<open>adaptedCV\<close> is absent or falsy.
\<close>

theorem latexCode_source:
  assumes "jsonMatch s = Some m" and "JSON_parse m = Some parsed"
  shows "(truthy (get_prop parsed (js ''latexCode'')) \<longrightarrow>
            Some (latexCode (fst (parseAdaptationResponse w (str s))))
              = get_prop parsed (js ''latexCode''))
       \<and> (\<not> truthy (get_prop parsed (js ''latexCode''))
            \<and> get_prop parsed (js ''adaptedCV'') = Some (JStr t) \<and> t \<noteq> [] \<longrightarrow>
            latexCode (fst (parseAdaptationResponse w (str s))) = JStr (generateDefaultLaTeX t))
       \<and> (\<not> truthy (get_prop parsed (js ''latexCode''))
            \<and> \<not> truthy (get_prop parsed (js ''adaptedCV'')) \<longrightarrow>
            latexCode (fst (parseAdaptationResponse w (str s))) = JStr (generateDefaultLaTeX []))"
proof -
  from parsed_match_is_object [OF assms] obtain kvs where kvs: "parsed = JObj kvs" by blast
  have a: "truthy (get_prop parsed (js ''latexCode'')) \<longrightarrow>
            Some (latexCode (fst (parseAdaptationResponse w (str s))))
              = get_prop parsed (js ''latexCode'')"
    using assms kvs
    by (cases "get_prop parsed (js ''latexCode'')")
       (auto simp: parseAdaptationResponse_def parseAdaptationResponse_try_def logical_or_cases)
  have b: "\<not> truthy (get_prop parsed (js ''latexCode''))
            \<and> get_prop parsed (js ''adaptedCV'') = Some (JStr t) \<and> t \<noteq> [] \<longrightarrow>
            latexCode (fst (parseAdaptationResponse w (str s))) = JStr (generateDefaultLaTeX t)"
    using assms kvs
    by (auto simp: parseAdaptationResponse_def parseAdaptationResponse_try_def logical_or_cases)
  have c: "\<not> truthy (get_prop parsed (js ''latexCode''))
            \<and> \<not> truthy (get_prop parsed (js ''adaptedCV'')) \<longrightarrow>
            latexCode (fst (parseAdaptationResponse w (str s))) = JStr (generateDefaultLaTeX [])"
    using assms kvs
    by (cases "get_prop parsed (js ''adaptedCV'')")
       (auto simp: parseAdaptationResponse_def parseAdaptationResponse_try_def logical_or_cases)
  from a b c show ?thesis by blast
qed

theorem latexCode_source_witness:
  "jsonMatch (js ''{\"adaptedCV\": \"Hi\", \"latexCode\": \"50% & {x}\"}'')
     = Some (js ''{\"adaptedCV\": \"Hi\", \"latexCode\": \"50% & {x}\"}'')
   \<and> JSON_parse (js ''{\"adaptedCV\": \"Hi\", \"latexCode\": \"50% & {x}\"}'')
     = Some (JObj [(js ''adaptedCV'', JStr (js ''Hi'')), (js ''latexCode'', JStr (js ''50% & {x}''))])
   \<and> truthy (Some (JStr (js ''50% & {x}'')))
   \<and> latexCode (fst (parseAdaptationResponse init
         (str (js ''{\"adaptedCV\": \"Hi\", \"latexCode\": \"50% & {x}\"}''))))
       = JStr (js ''50% & {x}'')
   \<and> jsonMatch (js ''{\"adaptedCV\": \"Hi\", \"latexCode\": null}'')
     = Some (js ''{\"adaptedCV\": \"Hi\", \"latexCode\": null}'')
   \<and> JSON_parse (js ''{\"adaptedCV\": \"Hi\", \"latexCode\": null}'')
     = Some (JObj [(js ''adaptedCV'', JStr (js ''Hi'')), (js ''latexCode'', JNull)])
   \<and> latexCode (fst (parseAdaptationResponse init
         (str (js ''{\"adaptedCV\": \"Hi\", \"latexCode\": null}''))))
       = JStr (generateDefaultLaTeX (js ''Hi''))
   \<and> jsonMatch (js ''{\"changes\": []}'') = Some (js ''{\"changes\": []}'')
   \<and> JSON_parse (js ''{\"changes\": []}'') = Some (JObj [(js ''changes'', JArr [])])
   \<and> latexCode (fst (parseAdaptationResponse init (str (js ''{\"changes\": []}''))))
       = JStr (generateDefaultLaTeX [])"
proof -
  let ?R1 = "js ''{\"adaptedCV\": \"Hi\", \"latexCode\": \"50% & {x}\"}''"
  let ?P1 = "JObj [(js ''adaptedCV'', JStr (js ''Hi'')), (js ''latexCode'', JStr (js ''50% & {x}''))]"
  let ?R2 = "js ''{\"adaptedCV\": \"Hi\", \"latexCode\": null}''"
  let ?P2 = "JObj [(js ''adaptedCV'', JStr (js ''Hi'')), (js ''latexCode'', JNull)]"
  let ?R3 = "js ''{\"changes\": []}''"
  let ?P3 = "JObj [(js ''changes'', JArr [])]"
  have a1: "jsonMatch ?R1 = Some ?R1" by (simp add: js_def)
  have b1: "JSON_parse ?R1 = Some ?P1" by (simp add: json_eval)
  have g1: "get_prop ?P1 (js ''latexCode'') = Some (JStr (js ''50% & {x}''))"
    by (simp add: js_def)
  have t1: "truthy (Some (JStr (js ''50% & {x}'')))" by (simp add: js_def)
  have a2: "jsonMatch ?R2 = Some ?R2" by (simp add: js_def)
  have b2: "JSON_parse ?R2 = Some ?P2" by (simp add: json_eval)
  have g2: "get_prop ?P2 (js ''latexCode'') = Some JNull"
    "get_prop ?P2 (js ''adaptedCV'') = Some (JStr (js ''Hi''))" "js ''Hi'' \<noteq> []"
    by (simp_all add: js_def)
  have a3: "jsonMatch ?R3 = Some ?R3" by (simp add: js_def)
  have b3: "JSON_parse ?R3 = Some ?P3" by (simp add: json_eval)
  have g3: "get_prop ?P3 (js ''latexCode'') = None" "get_prop ?P3 (js ''adaptedCV'') = None"
    by (simp_all add: js_def)
  from latexCode_source [OF a1 b1, where w = init] g1 t1
  have r1: "latexCode (fst (parseAdaptationResponse init (str ?R1))) = JStr (js ''50% & {x}'')"
    by simp
  from latexCode_source [OF a2 b2, where w = init and t = "js ''Hi''"] g2
  have r2: "latexCode (fst (parseAdaptationResponse init (str ?R2)))
      = JStr (generateDefaultLaTeX (js ''Hi''))"
    by simp
  from latexCode_source [OF a3 b3, where w = init] g3
  have r3: "latexCode (fst (parseAdaptationResponse init (str ?R3)))
      = JStr (generateDefaultLaTeX [])"
    by simp
  from a1 b1 t1 r1 a2 b2 r2 a3 b3 r3 show ?thesis by blast
qed

text \<open>
  Neither \<open>try\<close> block changes the world, the renderer changes nothing either, and what
  they return does not depend on the world they run in. So each method returns the
  world it was called in when its \<open>try\<close> block returns, and that world with one line
  more on the console when the block throws.
\<close>

lemma generateDefaultLaTeX_call_world: "snd (generateDefaultLaTeX_call w x) = w"
  by (cases x) simp_all

lemma generateDefaultLaTeX_call_result:
  "fst (generateDefaultLaTeX_call w1 x) = fst (generateDefaultLaTeX_call w2 x)"
  by (cases x) simp_all

lemma parseATSResponse_try_world: "snd (parseATSResponse_try w v) = w"
  by (simp add: parseATSResponse_try_def split: option.splits json.splits)

lemma parseATSResponse_try_result:
  "fst (parseATSResponse_try w1 v) = fst (parseATSResponse_try w2 v)"
  by (simp add: parseATSResponse_try_def split: option.splits json.splits)

lemma parseAdaptationResponse_try_world: "snd (parseAdaptationResponse_try w v) = w"
proof -
  have "snd (case generateDefaultLaTeX_call w x of (r, w') \<Rightarrow> (map_sum id JStr r, w')) = w"
    for x
    using generateDefaultLaTeX_call_world [of w x] by (simp add: case_prod_beta)
  then show ?thesis
    by (simp add: parseAdaptationResponse_try_def case_prod_beta
        split: option.splits json.splits sum.splits)
qed

lemma parseAdaptationResponse_try_result:
  "fst (parseAdaptationResponse_try w1 v) = fst (parseAdaptationResponse_try w2 v)"
proof -
  have "fst (case generateDefaultLaTeX_call w1 x of (r, w') \<Rightarrow> (map_sum id JStr r, w'))
      = fst (case generateDefaultLaTeX_call w2 x of (r, w') \<Rightarrow> (map_sum id JStr r, w'))"
    for x
    using generateDefaultLaTeX_call_result [of w1 x w2] by (simp add: case_prod_beta)
  then show ?thesis
    by (simp add: parseAdaptationResponse_try_def case_prod_beta
        split: option.splits json.splits sum.splits)
qed

lemma parseATSResponse_effect:
  "parseATSResponse w v =
     (case fst (parseATSResponse_try w v) of
        Inr r \<Rightarrow> (r, w)
      | Inl e \<Rightarrow>
          (ats_fallback, w\<lparr>console := console w @ [(js ''Error parsing ATS response:'', e)]\<rparr>))"
  using parseATSResponse_try_world [of w v]
  by (cases "parseATSResponse_try w v") (simp add: parseATSResponse_def split: sum.splits)

lemma parseAdaptationResponse_effect:
  "parseAdaptationResponse w v =
     (case fst (parseAdaptationResponse_try w v) of
        Inr r \<Rightarrow> (r, w)
      | Inl e \<Rightarrow>
          (adaptation_fallback,
           w\<lparr>console := console w @ [(js ''Error parsing adaptation response:'', e)]\<rparr>))"
  using parseAdaptationResponse_try_world [of w v]
  by (cases "parseAdaptationResponse_try w v")
     (simp add: parseAdaptationResponse_def split: sum.splits)

lemma parseATSResponse_result:
  "fst (parseATSResponse w1 v) = fst (parseATSResponse w2 v)"
  using parseATSResponse_try_result [of w1 v w2]
  by (simp add: parseATSResponse_effect split: sum.splits)

lemma parseAdaptationResponse_result:
  "fst (parseAdaptationResponse w1 v) = fst (parseAdaptationResponse w2 v)"
  using parseAdaptationResponse_try_result [of w1 v w2]
  by (simp add: parseAdaptationResponse_effect split: sum.splits)

text \<open>
  Claim C10, as stated: the two parsing methods and the renderer are pure functions of
  their input. The parsing methods are not pure: each \<open>catch\<close> block calls
  \<open>console.error\<close>. On the reply \<open>not json at all\<close> each method leaves a world other than
  the one it was called in, with one line more on the console.
\<close>

theorem parse_failure_writes_console_counterexample:
  "snd (parseATSResponse init (str (js ''not json at all''))) \<noteq> init
   \<and> console (snd (parseATSResponse init (str (js ''not json at all''))))
       = [(js ''Error parsing ATS response:'', Error (js ''No JSON found in response''))]
   \<and> snd (parseAdaptationResponse init (str (js ''not json at all''))) \<noteq> init
   \<and> console (snd (parseAdaptationResponse init (str (js ''not json at all''))))
       = [(js ''Error parsing adaptation response:'', Error (js ''No JSON found in response''))]"
proof -
  have m: "jsonMatch (js ''not json at all'') = None"
    by (simp add: js_def)
  have a: "snd (parseATSResponse init (str (js ''not json at all'')))
      = init\<lparr>console :=
          [(js ''Error parsing ATS response:'', Error (js ''No JSON found in response''))]\<rparr>"
    by (simp add: parseATSResponse_def parseATSResponse_try_def m init_def)
  have b: "snd (parseAdaptationResponse init (str (js ''not json at all'')))
      = init\<lparr>console :=
          [(js ''Error parsing adaptation response:'',
            Error (js ''No JSON found in response''))]\<rparr>"
    by (simp add: parseAdaptationResponse_def parseAdaptationResponse_try_def m init_def)
  show ?thesis
    unfolding a b by (simp add: init_def)
qed

text \<open>
  Claim C10, amended: the results of the two parsing methods and of the renderer are
  deterministic functions of the input alone. In any two worlds, that is for any two
  configuration states, consoles and histories of requests, and so also after any run of
  calls of the service, each of the three returns the same result on the same input;
  the renderer, called on a string, returns \<open>generateDefaultLaTeX\<close> of it and leaves the
  world as it was. The parsing methods have one effect: a method leaves the world as it
  was when its \<open>try\<close> block returns, and appends exactly one line, its label and the
  error thrown, to the console when the block throws; neither touches the configuration
  or the requests sent.
\<close>

theorem parse_results_deterministic:
  "fst (parseATSResponse w1 v) = fst (parseATSResponse w2 v)
   \<and> fst (parseAdaptationResponse w1 v) = fst (parseAdaptationResponse w2 v)
   \<and> fst (generateDefaultLaTeX_call w1 x) = fst (generateDefaultLaTeX_call w2 x)
   \<and> generateDefaultLaTeX_call w1 (JStr t) = (Inr (generateDefaultLaTeX t), w1)
   \<and> snd (generateDefaultLaTeX_call w1 x) = w1
   \<and> fst (parseATSResponse (snd (run E w1 cs)) v) = fst (parseATSResponse init v)
   \<and> fst (parseAdaptationResponse (snd (run E w1 cs)) v) = fst (parseAdaptationResponse init v)
   \<and> snd (parseATSResponse w1 v) =
       (case fst (parseATSResponse_try w1 v) of
          Inr r \<Rightarrow> w1
        | Inl e \<Rightarrow> w1\<lparr>console := console w1 @ [(js ''Error parsing ATS response:'', e)]\<rparr>)
   \<and> snd (parseAdaptationResponse w1 v) =
       (case fst (parseAdaptationResponse_try w1 v) of
          Inr r \<Rightarrow> w1
        | Inl e \<Rightarrow>
            w1\<lparr>console := console w1 @ [(js ''Error parsing adaptation response:'', e)]\<rparr>)
   \<and> config (snd (parseATSResponse w1 v)) = config w1
   \<and> sent (snd (parseATSResponse w1 v)) = sent w1
   \<and> config (snd (parseAdaptationResponse w1 v)) = config w1
   \<and> sent (snd (parseAdaptationResponse w1 v)) = sent w1"
proof -
  have a: "snd (parseATSResponse w1 v) =
       (case fst (parseATSResponse_try w1 v) of
          Inr r \<Rightarrow> w1
        | Inl e \<Rightarrow> w1\<lparr>console := console w1 @ [(js ''Error parsing ATS response:'', e)]\<rparr>)"
    by (simp add: parseATSResponse_effect split: sum.splits)
  have b: "snd (parseAdaptationResponse w1 v) =
       (case fst (parseAdaptationResponse_try w1 v) of
          Inr r \<Rightarrow> w1
        | Inl e \<Rightarrow>
            w1\<lparr>console := console w1 @ [(js ''Error parsing adaptation response:'', e)]\<rparr>)"
    by (simp add: parseAdaptationResponse_effect split: sum.splits)
  have c: "config (snd (parseATSResponse w1 v)) = config w1"
    "sent (snd (parseATSResponse w1 v)) = sent w1"
    unfolding a by (simp_all split: sum.splits)
  have d: "config (snd (parseAdaptationResponse w1 v)) = config w1"
    "sent (snd (parseAdaptationResponse w1 v)) = sent w1"
    unfolding b by (simp_all split: sum.splits)
  have e: "fst (generateDefaultLaTeX_call w1 x) = fst (generateDefaultLaTeX_call w2 x)"
    "snd (generateDefaultLaTeX_call w1 x) = w1"
    by (rule generateDefaultLaTeX_call_result, rule generateDefaultLaTeX_call_world)
  have f: "generateDefaultLaTeX_call w1 (JStr t) = (Inr (generateDefaultLaTeX t), w1)"
    by simp
  note g = parseATSResponse_result [of w1 v w2] parseAdaptationResponse_result [of w1 v w2]
    parseATSResponse_result [of "snd (run E w1 cs)" v init]
    parseAdaptationResponse_result [of "snd (run E w1 cs)" v init]
  from a b c d e f g show ?thesis by blast
qed

section \<open>The document renderer: results\<close>

text \<open>
  The chain of replacements acts on every code unit on its own: a backslash becomes
  \<open>\textbackslash\{\}\<close>, since the two brace rules run after the backslash rule, and every
  other code unit becomes what the single pass makes of it.
\<close>

lemma replace_all_append:
  "replace_all c r (xs @ ys) = replace_all c r xs @ replace_all c r ys"
  by (induction xs) auto

lemma escapedText_append: "escapedText (xs @ ys) = escapedText xs @ escapedText ys"
  by (simp add: escapedText_def replace_all_append)

lemma escapedText_Nil: "escapedText [] = []"
  by (simp add: escapedText_def)

lemma escapedText_Cons: "escapedText (x # xs) = escapedText [x] @ escapedText xs"
  using escapedText_append [of "[x]" xs] by simp

lemma escapedText_backslash:
  "escapedText [U BS] = js (BS # ''textbackslash'' @ BS # ''{'' @ BS # ''}'')"
  by (simp add: escapedText_def js_def)

lemma escapedText_other:
  "x \<noteq> U BS \<Longrightarrow> escapedText [x] = escape_char x"
  by (simp add: escapedText_def escape_char_def js_def)


lemma escapedText_per_char:
  "escapedText s =
     concat (map (\<lambda>x. if x = U BS then js (BS # ''textbackslash'' @ BS # ''{'' @ BS # ''}'')
                       else escape_char x) s)"
proof (induction s)
  case Nil
  then show ?case by (simp add: escapedText_Nil)
next
  case (Cons x xs)
  then show ?case
    using escapedText_Cons [of x xs] escapedText_backslash escapedText_other [of x]
    by simp
qed

lemma escapedText_single_pass_without_backslash:
  "U BS \<notin> set s \<Longrightarrow> escapedText s = escape_single_pass s"
  unfolding escapedText_per_char escape_single_pass_def
  by (induction s) auto

text \<open>No piece the chain produces holds a backslash followed by \<open>n\<close>, or ends in a backslash.\<close>

lemma adj_append:
  "adj a b (xs @ ys) \<longleftrightarrow>
     adj a b xs \<or> adj a b ys \<or> (xs \<noteq> [] \<and> ys \<noteq> [] \<and> last xs = a \<and> hd ys = b)"
proof (induction xs)
  case Nil
  then show ?case by simp
next
  case (Cons x xs)
  show ?case
  proof (cases xs)
    case Nil
    then show ?thesis by (cases ys) auto
  next
    case (Cons x' xs')
    with Cons.IH show ?thesis by auto
  qed
qed

lemma piece_safe:
  "\<not> adj (U BS) (U CHR ''n'') (escapedText [x])
   \<and> escapedText [x] \<noteq> [] \<and> last (escapedText [x]) \<noteq> U BS"
proof (cases "x = U BS")
  case True
  show ?thesis unfolding True escapedText_backslash by (simp add: js_def)
next
  case False
  then show ?thesis
    by (simp add: escapedText_other escape_char_def js_def)
qed

lemma escapedText_no_backslash_n:
  "\<not> adj (U BS) (U CHR ''n'') (escapedText s)"
proof (induction s)
  case Nil
  then show ?case by (simp add: escapedText_Nil)
next
  case (Cons x xs)
  from piece_safe [of x] Cons show ?case
    by (simp add: escapedText_Cons [of x xs] adj_append)
qed

lemma split_from_no_separator:
  "\<not> adj a b s \<Longrightarrow> split_from [a, b] cur s = [rev cur @ s]"
proof (induction s arbitrary: cur)
  case Nil
  then show ?case by simp
next
  case (Cons c cs)
  from Cons.prems have n: "\<not> adj a b cs" by (cases cs) auto
  from Cons.prems have p: "\<not> prefix [a, b] (c # cs)" by (cases cs) auto
  from Cons.IH [OF n, of "c # cur"] p show ?case by simp
qed

lemma summary_is_whole_text: "summary (escapedText s) = escapedText s"
proof -
  have "split (escapedText s) (js (BS # ''n'')) = [escapedText s]"
    using split_from_no_separator [OF escapedText_no_backslash_n, of "[]" s]
    by (simp add: split_def js_def)
  then show ?thesis by (simp add: summary_def slice_def)
qed

lemma generateDefaultLaTeX_sections:
  "generateDefaultLaTeX s =
     latex_head @ escapedText s @ latex_mid @ escapedText s @ latex_tail"
  by (simp add: generateDefaultLaTeX_def Let_def summary_is_whole_text)

text \<open>
  Claim C4. The claim asks for the effect of a single pass, in which the output of an
  earlier substitution is never escaped again. The source runs the brace rules after the
  backslash rule, so the braces that the backslash rule writes are escaped again: for the
  text that is one backslash the source yields \<open>\textbackslash\{\}\<close>, where the single
  pass yields \<open>\textbackslash{}\<close>. A reply whose \<open>adaptedCV\<close> is one backslash and which has no
  \<open>latexCode\<close> reaches the renderer with that text.
\<close>

theorem backslash_braces_escaped_again:
  "escapedText (js [BS]) = js (BS # ''textbackslash'' @ BS # ''{'' @ BS # ''}'')
   \<and> escape_single_pass (js [BS]) = js (BS # ''textbackslash{}'')
   \<and> escapedText (js [BS]) \<noteq> escape_single_pass (js [BS])
   \<and> latexCode (fst (parseAdaptationResponse init
         (str (js (''{\"adaptedCV\": \"'' @ BS # BS # ''\"}'')))))
       = JStr (latex_head @ js (BS # ''textbackslash'' @ BS # ''{'' @ BS # ''}'') @ latex_mid
               @ js (BS # ''textbackslash'' @ BS # ''{'' @ BS # ''}'') @ latex_tail)"
proof -
  have a: "escapedText (js [BS]) = js (BS # ''textbackslash'' @ BS # ''{'' @ BS # ''}'')"
    by (simp add: escapedText_def js_def)
  have b: "escape_single_pass (js [BS]) = js (BS # ''textbackslash{}'')"
    by (simp add: escape_single_pass_def escape_char_def js_def)
  have c: "js (BS # ''textbackslash'' @ BS # ''{'' @ BS # ''}'') \<noteq> js (BS # ''textbackslash{}'')"
    by (simp add: js_def)
  have d: "latexCode (fst (parseAdaptationResponse init
         (str (js (''{\"adaptedCV\": \"'' @ BS # BS # ''\"}'')))))
       = JStr (generateDefaultLaTeX (js [BS]))"
    by (simp add: parse_eval json_eval)
  from a b c d show ?thesis
    by (simp add: generateDefaultLaTeX_sections)
qed

text \<open>
  Claim C5. The claim asks for a summary section with exactly the first three lines of
  the escaped text. The source splits the escaped text at the two characters backslash
  and \<open>n\<close>, which the escaped text never contains, so the summary section holds the
  whole escaped text: for the text \<open>Line1\<close>, \<open>Line2\<close>, \<open>Line3\<close>, \<open>Line4\<close> on four lines,
  both sections hold all four lines, where the first three lines are \<open>Line1\<close>,
  \<open>Line2\<close>, \<open>Line3\<close>. A reply whose \<open>adaptedCV\<close> is that text and which has no
  \<open>latexCode\<close> gets this document.
\<close>

theorem summary_holds_all_lines:
  "generateDefaultLaTeX (js ''Line1\<newline>Line2\<newline>Line3\<newline>Line4'')
     = latex_head @ js ''Line1\<newline>Line2\<newline>Line3\<newline>Line4'' @ latex_mid
       @ js ''Line1\<newline>Line2\<newline>Line3\<newline>Line4'' @ latex_tail
   \<and> summary (escapedText (js ''Line1\<newline>Line2\<newline>Line3\<newline>Line4''))
     = js ''Line1\<newline>Line2\<newline>Line3\<newline>Line4''
   \<and> first_three_lines (escapedText (js ''Line1\<newline>Line2\<newline>Line3\<newline>Line4''))
     = js ''Line1\<newline>Line2\<newline>Line3''
   \<and> summary (escapedText (js ''Line1\<newline>Line2\<newline>Line3\<newline>Line4''))
     \<noteq> first_three_lines (escapedText (js ''Line1\<newline>Line2\<newline>Line3\<newline>Line4''))
   \<and> latexCode (fst (parseAdaptationResponse init
         (str (js (''{\"adaptedCV\": \"Line1'' @ BS # ''nLine2'' @ BS # ''nLine3'' @ BS # ''nLine4\"}'')))))
     = JStr (generateDefaultLaTeX (js ''Line1\<newline>Line2\<newline>Line3\<newline>Line4''))"
proof -
  have e: "escapedText (js ''Line1\<newline>Line2\<newline>Line3\<newline>Line4'')
      = js ''Line1\<newline>Line2\<newline>Line3\<newline>Line4''"
    by (simp add: escapedText_def js_def)
  have s: "summary (js ''Line1\<newline>Line2\<newline>Line3\<newline>Line4'')
      = js ''Line1\<newline>Line2\<newline>Line3\<newline>Line4''"
    by (simp add: summary_def split_def slice_def js_def)
  have f: "first_three_lines (js ''Line1\<newline>Line2\<newline>Line3\<newline>Line4'')
      = js ''Line1\<newline>Line2\<newline>Line3''"
    by (simp add: first_three_lines_def split_def slice_def js_def)
  have d: "js ''Line1\<newline>Line2\<newline>Line3\<newline>Line4'' \<noteq> js ''Line1\<newline>Line2\<newline>Line3''"
    by (simp add: js_def)
  have r: "latexCode (fst (parseAdaptationResponse init
         (str (js (''{\"adaptedCV\": \"Line1'' @ BS # ''nLine2'' @ BS # ''nLine3'' @ BS # ''nLine4\"}'')))))
     = JStr (generateDefaultLaTeX (js ''Line1\<newline>Line2\<newline>Line3\<newline>Line4''))"
    by (simp add: parse_eval json_eval)
  from e s f d r show ?thesis
    by (simp add: generateDefaultLaTeX_def Let_def)
qed

section \<open>Configuration\<close>

text \<open>
  Claim C6. For every input text, a call of \<open>checkATSFormat\<close> or \<open>adaptCVToJob\<close> while no
  provider configuration is set fails with the error \<open>API configuration not set\<close>, and it
  leaves the world as it was: nothing is handed to the transport and nothing is logged.
\<close>

theorem unconfigured_call_fails_before_network:
  assumes "config w = None"
  shows "checkATSFormat E w cvText = (Inl (Error (js ''API configuration not set'')), w)
       \<and> adaptCVToJob E w cvText jobDescription
           = (Inl (Error (js ''API configuration not set'')), w)
       \<and> sent (snd (checkATSFormat E w cvText)) = sent w
       \<and> sent (snd (adaptCVToJob E w cvText jobDescription)) = sent w"
  using assms by (simp add: checkATSFormat_def adaptCVToJob_def)

theorem unconfigured_call_fails_before_network_witness:
  "\<forall>E. config init = None
     \<and> checkATSFormat E init (js ''My CV'')
         = (Inl (Error (js ''API configuration not set'')), init)
     \<and> adaptCVToJob E init (js ''My CV'') (js ''A job'')
         = (Inl (Error (js ''API configuration not set'')), init)
     \<and> sent (snd (checkATSFormat E init (js ''My CV''))) = []
     \<and> sent (snd (adaptCVToJob E init (js ''My CV'') (js ''A job''))) = []"
proof
  fix E
  have h: "config init = None" by (simp add: init_def)
  have s: "sent init = []" by (simp add: init_def)
  show "config init = None
     \<and> checkATSFormat E init (js ''My CV'')
         = (Inl (Error (js ''API configuration not set'')), init)
     \<and> adaptCVToJob E init (js ''My CV'') (js ''A job'')
         = (Inl (Error (js ''API configuration not set'')), init)
     \<and> sent (snd (checkATSFormat E init (js ''My CV''))) = []
     \<and> sent (snd (adaptCVToJob E init (js ''My CV'') (js ''A job''))) = []"
    using h s unconfigured_call_fails_before_network [OF h, of E "js ''My CV''" "js ''A job''"]
    by simp
qed

text \<open>
  A call never changes the configuration unless it is \<open>setConfig\<close>, which sets it. The
  errors of the transport carry the label of the provider, so none of them is the
  configuration error.
\<close>

lemma exchange_config:
  "config (snd (exchange E w req path label)) = config w"
  by (simp add: exchange_def Let_def split: outcome.splits sum.splits)

lemma openai_label_not_set: "Error (js ''OpenAI API error: '' @ t) \<noteq> not_set"
  by (simp add: not_set_def js_def)

lemma claude_label_not_set: "Error (js ''Claude API error: '' @ t) \<noteq> not_set"
  by (simp add: not_set_def js_def)

lemma exchange_openai_not_set:
  "fst (exchange E w req path (js ''OpenAI API error: '')) \<noteq> Inl not_set"
  using openai_label_not_set
  by (simp add: exchange_def Let_def split: outcome.splits sum.splits)

lemma exchange_claude_not_set:
  "fst (exchange E w req path (js ''Claude API error: '')) \<noteq> Inl not_set"
  using claude_label_not_set
  by (simp add: exchange_def Let_def split: outcome.splits sum.splits)

lemma callAPI_configured:
  assumes "config w = Some cfg"
  shows "fst (callAPI E w prompt) \<noteq> Inl not_set"
    and "config (snd (callAPI E w prompt)) = Some cfg"
  using assms exchange_openai_not_set exchange_claude_not_set
  by (simp_all add: callAPI_def callOpenAI_def callClaude_def exchange_config)

lemma parseATSResponse_config: "config (snd (parseATSResponse w r)) = config w"
  by (simp add: parseATSResponse_effect split: sum.splits)

lemma parseAdaptationResponse_config: "config (snd (parseAdaptationResponse w r)) = config w"
  by (simp add: parseAdaptationResponse_effect split: sum.splits)

lemma checkATSFormat_configured:
  assumes "config w = Some cfg"
  shows "fst (checkATSFormat E w cvText) \<noteq> Inl not_set"
    and "config (snd (checkATSFormat E w cvText)) = Some cfg"
proof -
  obtain r w' where c: "callAPI E w (ats_prompt cvText) = (r, w')"
    by (cases "callAPI E w (ats_prompt cvText)")
  from callAPI_configured [OF assms, of E "ats_prompt cvText"] c
  have r: "r \<noteq> Inl not_set" and w': "config w' = Some cfg" by simp_all
  show "fst (checkATSFormat E w cvText) \<noteq> Inl not_set"
    using assms c r by (cases r) (simp_all add: checkATSFormat_def case_prod_beta)
  show "config (snd (checkATSFormat E w cvText)) = Some cfg"
    using assms c w' parseATSResponse_config [of w']
    by (cases r) (simp_all add: checkATSFormat_def case_prod_beta)
qed

lemma adaptCVToJob_configured:
  assumes "config w = Some cfg"
  shows "fst (adaptCVToJob E w cvText jd) \<noteq> Inl not_set"
    and "config (snd (adaptCVToJob E w cvText jd)) = Some cfg"
proof -
  obtain r w' where c: "callAPI E w (adapt_prompt cvText jd) = (r, w')"
    by (cases "callAPI E w (adapt_prompt cvText jd)")
  from callAPI_configured [OF assms, of E "adapt_prompt cvText jd"] c
  have r: "r \<noteq> Inl not_set" and w': "config w' = Some cfg" by simp_all
  show "fst (adaptCVToJob E w cvText jd) \<noteq> Inl not_set"
    using assms c r by (cases r) (simp_all add: adaptCVToJob_def case_prod_beta)
  show "config (snd (adaptCVToJob E w cvText jd)) = Some cfg"
    using assms c w' parseAdaptationResponse_config [of w']
    by (cases r) (simp_all add: adaptCVToJob_def case_prod_beta)
qed

lemma step_configured:
  assumes "config w \<noteq> None"
  shows "\<not> config_failure (fst (step E w c)) \<and> config (snd (step E w c)) \<noteq> None"
proof -
  from assms obtain cfg where cfg: "config w = Some cfg" by auto
  show ?thesis
  proof (cases c)
    case (SetConfig x)
    then show ?thesis by (simp add: config_failure_def setConfig_def)
  next
    case (CheckATSFormat t)
    then show ?thesis
      using checkATSFormat_configured [OF cfg, of E t]
      by (simp add: config_failure_def case_prod_beta)
  next
    case (AdaptCVToJob t j)
    then show ?thesis
      using adaptCVToJob_configured [OF cfg, of E t j]
      by (simp add: config_failure_def case_prod_beta)
  qed
qed

lemma run_configured:
  "config w \<noteq> None \<Longrightarrow>
     (\<forall>r \<in> set (fst (run E w cs)). \<not> config_failure r) \<and> config (snd (run E w cs)) \<noteq> None"
proof (induction cs arbitrary: w)
  case Nil
  then show ?case by simp
next
  case (Cons c cs)
  from step_configured [OF Cons.prems, of E c]
  have a: "\<not> config_failure (fst (step E w c))" and b: "config (snd (step E w c)) \<noteq> None"
    by simp_all
  from Cons.IH [OF b] a show ?case
    by (simp add: case_prod_beta)
qed

text \<open>
  Claim C9. \<open>setConfig\<close> sets the configuration; no call unsets a configuration that is
  set; and in every run that follows a \<open>setConfig\<close>, whatever the calls and whatever the
  network answers, no \<open>checkATSFormat\<close> or \<open>adaptCVToJob\<close> fails with
  \<open>API configuration not set\<close>.
\<close>

theorem config_stays_set:
  "config (setConfig w cfg) \<noteq> None
   \<and> (config w' \<noteq> None \<longrightarrow> config (snd (step E w' c)) \<noteq> None)
   \<and> (\<forall>r \<in> set (fst (run E (setConfig w cfg) cs)). \<not> config_failure r)"
  using run_configured [of "setConfig w cfg" E cs] step_configured [of w' E c]
  by (simp add: setConfig_def)

lemma run_down_example:
  "fst (run down (setConfig init cfg0) [CheckATSFormat (js ''My CV'')])
     = [Checked (Inl (Error (js ''Claude API error: Network Error'')))]"
  by (simp add: checkATSFormat_def callAPI_def callClaude_def exchange_def setConfig_def
      init_def cfg0_def down_def js_def)

theorem config_stays_set_witness:
  "config (setConfig init cfg0) \<noteq> None
   \<and> config (snd (step down (setConfig init cfg0) (CheckATSFormat (js ''My CV'')))) \<noteq> None
   \<and> Checked (Inl (Error (js ''Claude API error: Network Error'')))
       \<in> set (fst (run down (setConfig init cfg0) [CheckATSFormat (js ''My CV'')]))
   \<and> \<not> config_failure (Checked (Inl (Error (js ''Claude API error: Network Error''))))"
proof -
  have m: "Checked (Inl (Error (js ''Claude API error: Network Error'')))
       \<in> set (fst (run down (setConfig init cfg0) [CheckATSFormat (js ''My CV'')]))"
    unfolding run_down_example by simp
  from config_stays_set [of init cfg0 "setConfig init cfg0" down "CheckATSFormat (js ''My CV'')"
      "[CheckATSFormat (js ''My CV'')]"] m
  show ?thesis by blast
qed

end
